theory Spec2Isabelle
  imports Complex_Main "HOL-Library.AList" "HOL-Library.Sublist"
begin

section \<open>Python values, exceptions and the platform\<close>

text \<open>
  The client of \<^verbatim>\<open>flightaware/client.py\<close> passes Python values through: the
  arguments of a call, the dictionary posted as the form body, the decoded JSON reply and
  the \<^verbatim>\<open>datetime\<close> values it converts. A \<^verbatim>\<open>datetime\<close> carries the
  fields of Python's class; \<open>utcoffset\<close> is \<open>None\<close> for a naive value and the
  zone's offset in seconds for an aware one. A dictionary is an association list read by
  its first entry for a key (\<open>map_of\<close>) and written with \<open>AList.update\<close>, which
  keeps a key's place and appends a new key, as a Python dictionary does. A Python float
  is the real number it stands for; the rounding of float arithmetic is the platform's.
\<close>

record datetime =
  year :: int
  month :: int
  day :: int
  hour :: int
  minute :: int
  second :: int
  microsecond :: int
  utcoffset :: "int option"

datatype pyval =
    PNone
  | PBool bool
  | PInt int
  | PFloat real
  | PStr string
  | PList "pyval list"
  | PDict "(string \<times> pyval) list"
  | PDatetime datetime

text \<open>
  The exceptions the code can raise. \<open>OutOfRangeError\<close> stands for what
  \<^verbatim>\<open>datetime.fromtimestamp\<close> raises for a timestamp outside the years 1..9999
  (ValueError, OverflowError or OSError, by platform); \<open>TransportError\<close> for a fault
  of the HTTP layer.
\<close>

datatype error =
    TypeError
  | ValueError
  | KeyError
  | NotImplementedError
  | OutOfRangeError
  | TransportError

record HTTPBasicAuth =
  username :: string
  password :: string

text \<open>The keyword arguments of one call of \<^verbatim>\<open>requests.post\<close>.\<close>

record http_request =
  post_url :: string
  post_data :: pyval
  post_auth :: HTTPBasicAuth
  post_headers :: "(string \<times> string) list"

text \<open>
  What the code takes from outside: the remote service (the decoded JSON body of the reply
  to a request, or the fault of \<^verbatim>\<open>requests.post\<close> or \<^verbatim>\<open>r.json()\<close>; it may
  depend on the requests sent before), the local time zone of the process (its offset from
  UTC in seconds at a given epoch second, which \<^verbatim>\<open>datetime.fromtimestamp\<close> reads),
  the platform's conversion of a float timestamp, and its float division of two integers
  (Python's \<^verbatim>\<open>a / b\<close>: the float nearest to the quotient).
\<close>

record platform =
  respond :: "http_request list \<Rightarrow> http_request \<Rightarrow> error + pyval"
  local_utcoffset :: "int \<Rightarrow> int"
  float_fromtimestamp :: "real \<Rightarrow> error + datetime"
  true_divide :: "int \<Rightarrow> int \<Rightarrow> real"

text \<open>The attributes of a \<^verbatim>\<open>Client\<close> object, set by \<^verbatim>\<open>__init__\<close>.\<close>

record Client =
  auth :: HTTPBasicAuth
  headers :: "(string \<times> string) list"

text \<open>
  The state a method call runs in and returns: the client object \<^verbatim>\<open>self\<close> and the
  requests posted so far, oldest first.
\<close>

record state =
  self :: Client
  sent :: "http_request list"

type_synonym result = "(error + pyval) \<times> state"

subsection \<open>Truth value, membership, subscription, iteration\<close>

fun truthy :: "pyval \<Rightarrow> bool" where
  "truthy PNone = False"
| "truthy (PBool b) = b"
| "truthy (PInt i) = (i \<noteq> 0)"
| "truthy (PFloat x) = (x \<noteq> 0)"
| "truthy (PStr s) = (s \<noteq> [])"
| "truthy (PList xs) = (xs \<noteq> [])"
| "truthy (PDict kvs) = (kvs \<noteq> [])"
| "truthy (PDatetime d) = True"

text \<open>
  \<^verbatim>\<open>key in container\<close> for a string key: a dictionary is asked for the key, a list
  for an element equal to it, a string for a substring; every other value raises
  TypeError (it is not iterable).
\<close>

fun py_contains :: "string \<Rightarrow> pyval \<Rightarrow> error + bool" where
  "py_contains k (PDict kvs) = Inr (k \<in> fst ` set kvs)"
| "py_contains k (PList xs) = Inr (PStr k \<in> set xs)"
| "py_contains k (PStr s) = Inr (sublist k s)"
| "py_contains k v = Inl TypeError"

text \<open>
  \<^verbatim>\<open>container[key]\<close> for a string key: a dictionary gives the value or raises
  KeyError; a list or a string wants an integer index, every other value is not
  subscriptable (TypeError).
\<close>

fun py_getitem :: "pyval \<Rightarrow> string \<Rightarrow> error + pyval" where
  "py_getitem (PDict kvs) k = (case map_of kvs k of None \<Rightarrow> Inl KeyError | Some v \<Rightarrow> Inr v)"
| "py_getitem v k = Inl TypeError"

text \<open>\<^verbatim>\<open>container[key] = value\<close> for a string key; the container as updated.\<close>

fun py_setitem :: "pyval \<Rightarrow> string \<Rightarrow> pyval \<Rightarrow> error + pyval" where
  "py_setitem (PDict kvs) k v = Inr (PDict (AList.update k v kvs))"
| "py_setitem c k v = Inl TypeError"

text \<open>
  \<^verbatim>\<open>for item in container\<close>: the elements of a list, the keys of a dictionary, the
  characters of a string; every other value raises TypeError.
\<close>

fun py_iter :: "pyval \<Rightarrow> error + pyval list" where
  "py_iter (PList xs) = Inr xs"
| "py_iter (PDict kvs) = Inr (map (\<lambda>kv. PStr (fst kv)) kvs)"
| "py_iter (PStr s) = Inr (map (\<lambda>c. PStr [c]) s)"
| "py_iter v = Inl TypeError"

section \<open>Timestamps\<close>

subsection \<open>The proleptic Gregorian calendar of Python's datetime\<close>

text \<open>
  \<^verbatim>\<open>datetime\<close> subtraction goes through \<^verbatim>\<open>toordinal\<close> (day 1 is 0001-01-01),
  and \<^verbatim>\<open>fromtimestamp\<close> builds the calendar fields of a day number. Both follow the
  functions of the standard library's \<^verbatim>\<open>datetime\<close> module; Python's \<^verbatim>\<open>//\<close> and
  \<^verbatim>\<open>%\<close> round down, as \<open>div\<close> and \<open>mod\<close> on \<open>int\<close> do.
\<close>

definition is_leap :: "int \<Rightarrow> bool" where
  "is_leap y = (y mod 4 = 0 \<and> (y mod 100 \<noteq> 0 \<or> y mod 400 = 0))"

definition days_before_year :: "int \<Rightarrow> int" where
  "days_before_year y = (let p = y - 1 in p * 365 + p div 4 - p div 100 + p div 400)"

fun DAYS_IN_MONTH :: "int \<Rightarrow> int" where
  "DAYS_IN_MONTH m =
     (if m = 2 then 28 else if m = 4 \<or> m = 6 \<or> m = 9 \<or> m = 11 then 30 else 31)"

fun DAYS_BEFORE_MONTH :: "int \<Rightarrow> int" where
  "DAYS_BEFORE_MONTH m =
     (if m = 1 then 0 else if m = 2 then 31 else if m = 3 then 59 else if m = 4 then 90
      else if m = 5 then 120 else if m = 6 then 151 else if m = 7 then 181
      else if m = 8 then 212 else if m = 9 then 243 else if m = 10 then 273
      else if m = 11 then 304 else 334)"

definition days_in_month :: "int \<Rightarrow> int \<Rightarrow> int" where
  "days_in_month y m = (if m = 2 \<and> is_leap y then 29 else DAYS_IN_MONTH m)"

definition days_before_month :: "int \<Rightarrow> int \<Rightarrow> int" where
  "days_before_month y m = DAYS_BEFORE_MONTH m + (if m > 2 \<and> is_leap y then 1 else 0)"

definition ymd2ord :: "int \<Rightarrow> int \<Rightarrow> int \<Rightarrow> int" where
  "ymd2ord y m d = days_before_year y + days_before_month y m + d"

definition ord2ymd :: "int \<Rightarrow> int \<times> int \<times> int" where
  "ord2ymd ordinal =
     (let n = ordinal - 1;
          n400 = n div 146097; r400 = n mod 146097;
          n100 = r400 div 36524; r100 = r400 mod 36524;
          n4 = r100 div 1461; r4 = r100 mod 1461;
          n1 = r4 div 365; r1 = r4 mod 365;
          y = n400 * 400 + 1 + n100 * 100 + n4 * 4 + n1
      in if n1 = 4 \<or> n100 = 4 then (y - 1, 12, 31)
         else
           let leapyear = (n1 = 3 \<and> (n4 \<noteq> 24 \<or> n100 = 3));
               m = (r1 + 50) div 32;
               preceding = DAYS_BEFORE_MONTH m + (if m > 2 \<and> leapyear then 1 else 0)
           in if preceding > r1
              then (y, m - 1,
                    r1 - (preceding
                          - (DAYS_IN_MONTH (m - 1) + (if m - 1 = 2 \<and> leapyear then 1 else 0))) + 1)
              else (y, m, r1 - preceding + 1))"

text \<open>
  The values the constructor of \<^verbatim>\<open>datetime\<close> accepts; every Python datetime
  satisfies this.
\<close>

definition valid_datetime :: "datetime \<Rightarrow> bool" where
  "valid_datetime d =
     (1 \<le> year d \<and> year d \<le> 9999 \<and> 1 \<le> month d \<and> month d \<le> 12
      \<and> 1 \<le> day d \<and> day d \<le> days_in_month (year d) (month d)
      \<and> 0 \<le> hour d \<and> hour d < 24 \<and> 0 \<le> minute d \<and> minute d < 60
      \<and> 0 \<le> second d \<and> second d < 60 \<and> 0 \<le> microsecond d \<and> microsecond d < 1000000)"

definition toordinal :: "datetime \<Rightarrow> int" where
  "toordinal d = ymd2ord (year d) (month d) (day d)"

subsection \<open>Subtraction and the two conversions\<close>

text \<open>A \<^verbatim>\<open>timedelta\<close>, as its length in microseconds.\<close>

type_synonym timedelta = int

text \<open>
  \<^verbatim>\<open>a - b\<close> on datetimes: the difference of the fields; when the offsets differ,
  two aware values are brought to UTC and a naive one with an aware one raises TypeError.
\<close>

definition datetime_sub :: "datetime \<Rightarrow> datetime \<Rightarrow> error + timedelta" where
  "datetime_sub a b =
     (let secs1 = second a + minute a * 60 + hour a * 3600;
          secs2 = second b + minute b * 60 + hour b * 3600;
          base = ((toordinal a - toordinal b) * 86400 + (secs1 - secs2)) * 1000000
                 + (microsecond a - microsecond b)
      in if utcoffset a = utcoffset b then Inr base
         else (case (utcoffset a, utcoffset b) of
                 (Some myoff, Some otoff) \<Rightarrow> Inr (base + (otoff - myoff) * 1000000)
               | _ \<Rightarrow> Inl TypeError))"

text \<open>
  \<^verbatim>\<open>timedelta.total_seconds()\<close> divides the microseconds by \<open>10**6\<close> in float
  arithmetic.
\<close>

definition total_seconds :: "platform \<Rightarrow> timedelta \<Rightarrow> real" where
  "total_seconds p td = true_divide p td 1000000"

text \<open>
  What the proofs use of that division: it is exact where the quotient is an integer of
  magnitude at most \<open>2^53\<close>, and it is monotone, as the correctly rounded division of
  IEEE doubles is.
\<close>

definition ieee_true_divide :: "platform \<Rightarrow> bool" where
  "ieee_true_divide p =
     ((\<forall>q. \<bar>q\<bar> \<le> 2 ^ 53 \<longrightarrow> true_divide p (q * 1000000) 1000000 = real_of_int q)
      \<and> (\<forall>a b. a \<le> b \<longrightarrow> true_divide p a 1000000 \<le> true_divide p b 1000000))"

text \<open>\<^verbatim>\<open>int(x)\<close> on a float rounds towards zero.\<close>

definition int_of_float :: "real \<Rightarrow> int" where
  "int_of_float x = (if 0 \<le> x then \<lfloor>x\<rfloor> else \<lceil>x\<rceil>)"

definition EPOCH :: datetime where
  "EPOCH = \<lparr>year = 1970, month = 1, day = 1, hour = 0, minute = 0, second = 0,
            microsecond = 0, utcoffset = None\<rparr>"

definition to_unix_timestamp :: "platform \<Rightarrow> pyval \<Rightarrow> error + pyval" where
  "to_unix_timestamp p val =
     (if truthy val then
        (case val of
           PDatetime d \<Rightarrow>
             (case datetime_sub d EPOCH of
                Inl e \<Rightarrow> Inl e
              | Inr td \<Rightarrow> Inr (PInt (int_of_float (total_seconds p td))))
         | _ \<Rightarrow> Inl ValueError)
      else Inr PNone)"

text \<open>
  \<^verbatim>\<open>datetime.fromtimestamp(t)\<close> for an integer: the naive local time of the process,
  that is the calendar fields of \<open>t\<close> plus the local zone's offset at \<open>t\<close>. Day number
  719163 is 1970-01-01 and 3652059 is 9999-12-31.
\<close>

definition localtime :: "platform \<Rightarrow> int \<Rightarrow> error + datetime" where
  "localtime p t =
     (let loc = t + local_utcoffset p t;
          ordinal = loc div 86400 + 719163;
          s = loc mod 86400
      in if ordinal < 1 \<or> ordinal > 3652059 then Inl OutOfRangeError
         else (case ord2ymd ordinal of
                 (y, m, d) \<Rightarrow>
                   Inr \<lparr>year = y, month = m, day = d, hour = s div 3600,
                        minute = s mod 3600 div 60, second = s mod 60,
                        microsecond = 0, utcoffset = None\<rparr>))"

definition fromtimestamp :: "platform \<Rightarrow> pyval \<Rightarrow> error + datetime" where
  "fromtimestamp p val =
     (case val of
        PInt t \<Rightarrow> localtime p t
      | PBool b \<Rightarrow> localtime p (if b then 1 else 0)
      | PFloat x \<Rightarrow> float_fromtimestamp p x
      | _ \<Rightarrow> Inl TypeError)"

definition from_unix_timestamp :: "platform \<Rightarrow> pyval \<Rightarrow> error + pyval" where
  "from_unix_timestamp p val =
     (case fromtimestamp p val of Inl e \<Rightarrow> Inl e | Inr d \<Rightarrow> Inr (PDatetime d))"

text \<open>
  The whole seconds from 1970-01-01T00:00:00 to the second of \<open>d\<close>, both read as naive
  calendar times.
\<close>

definition seconds_since_epoch :: "datetime \<Rightarrow> int" where
  "seconds_since_epoch d =
     (toordinal d - toordinal EPOCH) * 86400 + hour d * 3600 + minute d * 60 + second d"

section \<open>The client\<close>

definition BASE_URL :: string where
  "BASE_URL = ''http://flightxml.flightaware.com/json/FlightXML2/''"

definition MAX_RECORD_LENGTH :: int where
  "MAX_RECORD_LENGTH = 15"

text \<open>\<^verbatim>\<open>AirlineInsightReportType.PERCENTAGE_SCHEDULED_ACTUALLY_FLOWN\<close>.\<close>

definition PERCENTAGE_SCHEDULED_ACTUALLY_FLOWN :: int where
  "PERCENTAGE_SCHEDULED_ACTUALLY_FLOWN = 2"

text \<open>\<^verbatim>\<open>Client.__init__\<close>.\<close>

definition Client_init :: "string \<Rightarrow> string \<Rightarrow> Client" where
  "Client_init user api_key =
     \<lparr>auth = \<lparr>username = user, password = api_key\<rparr>,
      headers = [(''Content-Type'', ''application/x-www-form-urlencoded'')]\<rparr>"

text \<open>\<^verbatim>\<open>os.path.join(a, b)\<close> of \<^verbatim>\<open>posixpath\<close>.\<close>

definition os_path_join :: "string \<Rightarrow> string \<Rightarrow> string" where
  "os_path_join a b =
     (if b \<noteq> [] \<and> hd b = CHR ''/'' then b
      else if a = [] \<or> last a = CHR ''/'' then a @ b
      else a @ ''/'' @ b)"

text \<open>
  Lines 61 to 67 of \<^verbatim>\<open>Client._request\<close>: the reply \<open>result\<close> is unwrapped under
  the key \<^verbatim>\<open>"<method>Result"\<close>, then under \<^verbatim>\<open>"data"\<close>.
\<close>

definition unwrap_result :: "string \<Rightarrow> pyval \<Rightarrow> error + pyval" where
  "unwrap_result meth result =
     (let key = meth @ ''Result'' in
      case py_contains key result of
        Inl e \<Rightarrow> Inl e
      | Inr has_key \<Rightarrow>
          if has_key then
            (case py_getitem result key of
               Inl e \<Rightarrow> Inl e
             | Inr final \<Rightarrow>
                 (case py_contains ''data'' final of
                    Inl e \<Rightarrow> Inl e
                  | Inr has_data \<Rightarrow> if has_data then py_getitem final ''data'' else Inr final))
          else Inr result)"

text \<open>
  \<^verbatim>\<open>Client._request\<close> (an Isabelle name cannot start with an underscore): one POST,
  recorded in \<open>sent\<close> whether or not the transport fails, then the unwrapping.
\<close>

definition request :: "platform \<Rightarrow> string \<Rightarrow> pyval \<Rightarrow> state \<Rightarrow> result" where
  "request p meth data s =
     (let url = os_path_join BASE_URL meth;
          req = \<lparr>post_url = url, post_data = data, post_auth = auth (self s),
                 post_headers = headers (self s)\<rparr>;
          s' = s\<lparr>sent := sent s @ [req]\<rparr>
      in case respond p (sent s) req of
           Inl e \<Rightarrow> (Inl e, s')
         | Inr result \<Rightarrow> (unwrap_result meth result, s'))"

text \<open>An argument with a default value: \<open>None\<close> when the caller leaves it out.\<close>

definition arg_default :: "pyval \<Rightarrow> pyval option \<Rightarrow> pyval" where
  "arg_default dflt a = (case a of None \<Rightarrow> dflt | Some v \<Rightarrow> v)"

subsection \<open>The implemented operations\<close>

definition aircraft_type :: "platform \<Rightarrow> pyval \<Rightarrow> state \<Rightarrow> result" where
  "aircraft_type p aircraft_type_arg s =
     request p ''AircraftType'' (PDict [(''type'', aircraft_type_arg)]) s"

definition airline_flight_info :: "platform \<Rightarrow> pyval \<Rightarrow> state \<Rightarrow> result" where
  "airline_flight_info p fa_flight_id s =
     request p ''AirlineFlightInfo'' (PDict [(''faFlightID'', fa_flight_id)]) s"

text \<open>The body of the loop of \<^verbatim>\<open>airline_flight_schedules\<close> on one item.\<close>

definition add_times :: "platform \<Rightarrow> pyval \<Rightarrow> error + pyval" where
  "add_times p item =
     (case py_getitem item ''departuretime'' of
        Inl e \<Rightarrow> Inl e
      | Inr dep \<Rightarrow>
     (case from_unix_timestamp p dep of
        Inl e \<Rightarrow> Inl e
      | Inr departure_time \<Rightarrow>
     (case py_setitem item ''departure_time'' departure_time of
        Inl e \<Rightarrow> Inl e
      | Inr item1 \<Rightarrow>
     (case py_getitem item1 ''arrivaltime'' of
        Inl e \<Rightarrow> Inl e
      | Inr arr \<Rightarrow>
     (case from_unix_timestamp p arr of
        Inl e \<Rightarrow> Inl e
      | Inr arrival_time \<Rightarrow> py_setitem item1 ''arrival_time'' arrival_time)))))"

fun for_items :: "platform \<Rightarrow> pyval list \<Rightarrow> error + pyval list" where
  "for_items p [] = Inr []"
| "for_items p (item # rest) =
     (case add_times p item of
        Inl e \<Rightarrow> Inl e
      | Inr item' \<Rightarrow>
          (case for_items p rest of Inl e \<Rightarrow> Inl e | Inr rest' \<Rightarrow> Inr (item' # rest')))"

text \<open>
  The loop over \<open>results\<close>: the items of a list are updated in place; the keys of a
  dictionary and the characters of a string cannot be (the first one raises), so such a
  value comes back as it is, and only when it is empty.
\<close>

definition decode_times :: "platform \<Rightarrow> pyval \<Rightarrow> error + pyval" where
  "decode_times p results =
     (case py_iter results of
        Inl e \<Rightarrow> Inl e
      | Inr items \<Rightarrow>
          (case for_items p items of
             Inl e \<Rightarrow> Inl e
           | Inr items' \<Rightarrow> Inr (case results of PList xs \<Rightarrow> PList items' | _ \<Rightarrow> results)))"

definition airline_flight_schedules ::
  "platform \<Rightarrow> pyval \<Rightarrow> pyval \<Rightarrow> pyval option \<Rightarrow> pyval option \<Rightarrow> pyval option \<Rightarrow> pyval option
     \<Rightarrow> pyval option \<Rightarrow> pyval option \<Rightarrow> state \<Rightarrow> result" where
  "airline_flight_schedules p start_date end_date origin destination airline flight_number
       how_many offset s =
     (case to_unix_timestamp p start_date of
        Inl e \<Rightarrow> (Inl e, s)
      | Inr startDate \<Rightarrow>
     (case to_unix_timestamp p end_date of
        Inl e \<Rightarrow> (Inl e, s)
      | Inr endDate \<Rightarrow>
     (let data = PDict
            [(''startDate'', startDate),
             (''endDate'', endDate),
             (''origin'', arg_default PNone origin),
             (''destination'', arg_default PNone destination),
             (''airline'', arg_default PNone airline),
             (''flightno'', arg_default PNone flight_number),
             (''howMany'', arg_default (PInt MAX_RECORD_LENGTH) how_many),
             (''offset'', arg_default (PInt 0) offset)]
      in case request p ''AirlineFlightSchedules'' data s of
           (Inl e, s') \<Rightarrow> (Inl e, s')
         | (Inr results, s') \<Rightarrow> (decode_times p results, s'))))"

definition airline_info :: "platform \<Rightarrow> pyval \<Rightarrow> state \<Rightarrow> result" where
  "airline_info p airline s = request p ''AirlineInfo'' (PDict [(''airlineCode'', airline)]) s"

definition airline_insight ::
  "platform \<Rightarrow> pyval \<Rightarrow> pyval \<Rightarrow> pyval option \<Rightarrow> state \<Rightarrow> result" where
  "airline_insight p origin destination report_type s =
     request p ''AirlineInsight''
       (PDict [(''origin'', origin),
               (''destination'', destination),
               (''reportType'',
                arg_default (PInt PERCENTAGE_SCHEDULED_ACTUALLY_FLOWN) report_type)]) s"

definition airport_info :: "platform \<Rightarrow> pyval \<Rightarrow> state \<Rightarrow> result" where
  "airport_info p airport s = request p ''AirportInfo'' (PDict [(''airportCode'', airport)]) s"

definition all_airlines :: "platform \<Rightarrow> state \<Rightarrow> result" where
  "all_airlines p s = request p ''AllAirlines'' PNone s"

definition all_airports :: "platform \<Rightarrow> state \<Rightarrow> result" where
  "all_airports p s = request p ''AllAirports'' PNone s"

definition block_indent_check :: "platform \<Rightarrow> pyval \<Rightarrow> state \<Rightarrow> result" where
  "block_indent_check p ident s = request p ''BlockIdentCheck'' (PDict [(''ident'', ident)]) s"

definition count_airport_operations :: "platform \<Rightarrow> pyval \<Rightarrow> state \<Rightarrow> result" where
  "count_airport_operations p airport s =
     request p ''CountAirportOperations'' (PDict [(''airport'', airport)]) s"

definition count_all_enroute_airline_operations :: "platform \<Rightarrow> state \<Rightarrow> result" where
  "count_all_enroute_airline_operations p s =
     request p ''CountAllEnrouteAirlineOperations'' PNone s"

definition get_flight_id :: "platform \<Rightarrow> pyval \<Rightarrow> pyval \<Rightarrow> state \<Rightarrow> result" where
  "get_flight_id p ident departure_datetime s =
     (case to_unix_timestamp p departure_datetime of
        Inl e \<Rightarrow> (Inl e, s)
      | Inr departureTime \<Rightarrow>
          request p ''GetFlightID''
            (PDict [(''ident'', ident), (''departureTime'', departureTime)]) s)"

definition metar :: "platform \<Rightarrow> pyval \<Rightarrow> state \<Rightarrow> result" where
  "metar p airport s = request p ''Metar'' (PDict [(''airport'', airport)]) s"

definition metar_ex :: "platform \<Rightarrow> pyval \<Rightarrow> state \<Rightarrow> result" where
  "metar_ex p airport s = request p ''MetarEx'' (PDict [(''airport'', airport)]) s"

definition ntaf :: "platform \<Rightarrow> pyval \<Rightarrow> state \<Rightarrow> result" where
  "ntaf p airport s = request p ''NTaf'' (PDict [(''airport'', airport)]) s"

definition taf :: "platform \<Rightarrow> pyval \<Rightarrow> state \<Rightarrow> result" where
  "taf p airport s = request p ''NTaf'' (PDict [(''airport'', airport)]) s"

definition tail_owner :: "platform \<Rightarrow> pyval \<Rightarrow> state \<Rightarrow> result" where
  "tail_owner p ident s = request p ''TailOwner'' (PDict [(''ident'', ident)]) s"

definition zipcode_info :: "platform \<Rightarrow> pyval \<Rightarrow> state \<Rightarrow> result" where
  "zipcode_info p zipcode s = request p ''ZipcodeInfo'' (PDict [(''zipcode'', zipcode)]) s"

subsection \<open>The operations that are declared only\<close>

text \<open>Each body is \<^verbatim>\<open>raise NotImplementedError\<close>.\<close>

definition decode_flight_route :: "state \<Rightarrow> result" where
  "decode_flight_route s = (Inl NotImplementedError, s)"

definition decode_route :: "state \<Rightarrow> result" where
  "decode_route s = (Inl NotImplementedError, s)"

definition arrived ::
  "pyval \<Rightarrow> pyval option \<Rightarrow> pyval option \<Rightarrow> pyval option \<Rightarrow> state \<Rightarrow> result" where
  "arrived airport how_many filter_arg offset s = (Inl NotImplementedError, s)"

definition departed ::
  "pyval \<Rightarrow> pyval option \<Rightarrow> pyval option \<Rightarrow> pyval option \<Rightarrow> state \<Rightarrow> result" where
  "departed airport how_many filter_arg offset s = (Inl NotImplementedError, s)"

definition enroute :: "state \<Rightarrow> result" where
  "enroute s = (Inl NotImplementedError, s)"

definition fleet_arrived :: "state \<Rightarrow> result" where
  "fleet_arrived s = (Inl NotImplementedError, s)"

definition fleet_scheduled :: "state \<Rightarrow> result" where
  "fleet_scheduled s = (Inl NotImplementedError, s)"

definition flight_info :: "pyval \<Rightarrow> pyval option \<Rightarrow> state \<Rightarrow> result" where
  "flight_info ident how_many s = (Inl NotImplementedError, s)"

definition flight_info_ex :: "state \<Rightarrow> result" where
  "flight_info_ex s = (Inl NotImplementedError, s)"

definition get_historical_track :: "state \<Rightarrow> result" where
  "get_historical_track s = (Inl NotImplementedError, s)"

definition get_last_track :: "state \<Rightarrow> result" where
  "get_last_track s = (Inl NotImplementedError, s)"

definition inbound_flight_info :: "state \<Rightarrow> result" where
  "inbound_flight_info s = (Inl NotImplementedError, s)"

definition in_flight_info :: "state \<Rightarrow> result" where
  "in_flight_info s = (Inl NotImplementedError, s)"

definition lat_lng_to_distance :: "state \<Rightarrow> result" where
  "lat_lng_to_distance s = (Inl NotImplementedError, s)"

definition lat_lng_to_heading :: "state \<Rightarrow> result" where
  "lat_lng_to_heading s = (Inl NotImplementedError, s)"

definition map_flight :: "state \<Rightarrow> result" where
  "map_flight s = (Inl NotImplementedError, s)"

definition map_flight_ex :: "state \<Rightarrow> result" where
  "map_flight_ex s = (Inl NotImplementedError, s)"

definition routes_between_airports :: "state \<Rightarrow> result" where
  "routes_between_airports s = (Inl NotImplementedError, s)"

definition routes_between_airports_ex :: "state \<Rightarrow> result" where
  "routes_between_airports_ex s = (Inl NotImplementedError, s)"

definition scheduled :: "state \<Rightarrow> result" where
  "scheduled s = (Inl NotImplementedError, s)"

definition search :: "state \<Rightarrow> result" where
  "search s = (Inl NotImplementedError, s)"

definition search_birdseye_in_flight :: "state \<Rightarrow> result" where
  "search_birdseye_in_flight s = (Inl NotImplementedError, s)"

definition search_birdseye_positions :: "state \<Rightarrow> result" where
  "search_birdseye_positions s = (Inl NotImplementedError, s)"

definition search_count :: "state \<Rightarrow> result" where
  "search_count s = (Inl NotImplementedError, s)"

definition set_maximum_result_sizes :: "state \<Rightarrow> result" where
  "set_maximum_result_sizes s = (Inl NotImplementedError, s)"

definition get_alerts :: "state \<Rightarrow> result" where
  "get_alerts s = (Inl NotImplementedError, s)"

definition delete_alert :: "state \<Rightarrow> result" where
  "delete_alert s = (Inl NotImplementedError, s)"

definition set_alert :: "state \<Rightarrow> result" where
  "set_alert s = (Inl NotImplementedError, s)"

definition register_alert_endpoint :: "state \<Rightarrow> result" where
  "register_alert_endpoint s = (Inl NotImplementedError, s)"

subsection \<open>Calls and sequences of calls\<close>

text \<open>
  A call of a method of \<^verbatim>\<open>Client\<close> with its arguments, the implemented ones
  first; \<open>invoke\<close> runs one and \<open>run\<close> a sequence of them on the same client,
  whatever each returns or raises.
\<close>

datatype call =
    Aircraft_type pyval
  | Airline_flight_info pyval
  | Airline_flight_schedules pyval pyval "pyval option" "pyval option" "pyval option"
      "pyval option" "pyval option" "pyval option"
  | Airline_info pyval
  | Airline_insight pyval pyval "pyval option"
  | Airport_info pyval
  | All_airlines
  | All_airports
  | Block_indent_check pyval
  | Count_airport_operations pyval
  | Count_all_enroute_airline_operations
  | Get_flight_id pyval pyval
  | Metar pyval
  | Metar_ex pyval
  | Ntaf pyval
  | Taf pyval
  | Tail_owner pyval
  | Zipcode_info pyval
  | Decode_flight_route
  | Decode_route
  | Arrived pyval "pyval option" "pyval option" "pyval option"
  | Departed pyval "pyval option" "pyval option" "pyval option"
  | Enroute
  | Fleet_arrived
  | Fleet_scheduled
  | Flight_info pyval "pyval option"
  | Flight_info_ex
  | Get_historical_track
  | Get_last_track
  | Inbound_flight_info
  | In_flight_info
  | Lat_lng_to_distance
  | Lat_lng_to_heading
  | Map_flight
  | Map_flight_ex
  | Routes_between_airports
  | Routes_between_airports_ex
  | Scheduled
  | Search
  | Search_birdseye_in_flight
  | Search_birdseye_positions
  | Search_count
  | Set_maximum_result_sizes
  | Get_alerts
  | Delete_alert
  | Set_alert
  | Register_alert_endpoint

fun invoke :: "platform \<Rightarrow> call \<Rightarrow> state \<Rightarrow> result" where
  "invoke p (Aircraft_type a) s = aircraft_type p a s"
| "invoke p (Airline_flight_info a) s = airline_flight_info p a s"
| "invoke p (Airline_flight_schedules a b c d e f g h) s =
     airline_flight_schedules p a b c d e f g h s"
| "invoke p (Airline_info a) s = airline_info p a s"
| "invoke p (Airline_insight a b c) s = airline_insight p a b c s"
| "invoke p (Airport_info a) s = airport_info p a s"
| "invoke p All_airlines s = all_airlines p s"
| "invoke p All_airports s = all_airports p s"
| "invoke p (Block_indent_check a) s = block_indent_check p a s"
| "invoke p (Count_airport_operations a) s = count_airport_operations p a s"
| "invoke p Count_all_enroute_airline_operations s = count_all_enroute_airline_operations p s"
| "invoke p (Get_flight_id a b) s = get_flight_id p a b s"
| "invoke p (Metar a) s = metar p a s"
| "invoke p (Metar_ex a) s = metar_ex p a s"
| "invoke p (Ntaf a) s = ntaf p a s"
| "invoke p (Taf a) s = taf p a s"
| "invoke p (Tail_owner a) s = tail_owner p a s"
| "invoke p (Zipcode_info a) s = zipcode_info p a s"
| "invoke p Decode_flight_route s = decode_flight_route s"
| "invoke p Decode_route s = decode_route s"
| "invoke p (Arrived a b c d) s = arrived a b c d s"
| "invoke p (Departed a b c d) s = departed a b c d s"
| "invoke p Enroute s = enroute s"
| "invoke p Fleet_arrived s = fleet_arrived s"
| "invoke p Fleet_scheduled s = fleet_scheduled s"
| "invoke p (Flight_info a b) s = flight_info a b s"
| "invoke p Flight_info_ex s = flight_info_ex s"
| "invoke p Get_historical_track s = get_historical_track s"
| "invoke p Get_last_track s = get_last_track s"
| "invoke p Inbound_flight_info s = inbound_flight_info s"
| "invoke p In_flight_info s = in_flight_info s"
| "invoke p Lat_lng_to_distance s = lat_lng_to_distance s"
| "invoke p Lat_lng_to_heading s = lat_lng_to_heading s"
| "invoke p Map_flight s = map_flight s"
| "invoke p Map_flight_ex s = map_flight_ex s"
| "invoke p Routes_between_airports s = routes_between_airports s"
| "invoke p Routes_between_airports_ex s = routes_between_airports_ex s"
| "invoke p Scheduled s = scheduled s"
| "invoke p Search s = search s"
| "invoke p Search_birdseye_in_flight s = search_birdseye_in_flight s"
| "invoke p Search_birdseye_positions s = search_birdseye_positions s"
| "invoke p Search_count s = search_count s"
| "invoke p Set_maximum_result_sizes s = set_maximum_result_sizes s"
| "invoke p Get_alerts s = get_alerts s"
| "invoke p Delete_alert s = delete_alert s"
| "invoke p Set_alert s = set_alert s"
| "invoke p Register_alert_endpoint s = register_alert_endpoint s"

fun run :: "platform \<Rightarrow> call list \<Rightarrow> state \<Rightarrow> state" where
  "run p [] s = s"
| "run p (c # cs) s = run p cs (snd (invoke p c s))"

text \<open>
  \<open>client_kept s s'\<close>: from \<open>s\<close> to \<open>s'\<close> the client object is the same, the
  requests sent before are still there, and every request sent since carries the client's
  credentials and headers.
\<close>

definition client_kept :: "state \<Rightarrow> state \<Rightarrow> bool" where
  "client_kept s s' =
     (self s' = self s
      \<and> take (length (sent s)) (sent s') = sent s
      \<and> list_all (\<lambda>r. post_auth r = auth (self s) \<and> post_headers r = headers (self s))
           (drop (length (sent s)) (sent s')))"

subsection \<open>Example inputs\<close>

text \<open>
  A platform whose service answers every request with \<open>reply\<close>, whose local zone is
  \<open>offset\<close> seconds east of UTC and whose division is exact, and a client that has
  sent nothing yet.
\<close>

definition example_platform :: "pyval \<Rightarrow> int \<Rightarrow> platform" where
  "example_platform reply offset =
     \<lparr>respond = (\<lambda>history req. Inr reply), local_utcoffset = (\<lambda>t. offset),
      float_fromtimestamp = (\<lambda>x. Inl OutOfRangeError),
      true_divide = (\<lambda>a b. real_of_int a / real_of_int b)\<rparr>"

definition example_state :: state where
  "example_state = \<lparr>self = Client_init ''user'' ''key'', sent = []\<rparr>"

text \<open>
  A reply to \<^verbatim>\<open>AirlineFlightSchedules\<close> with one flight, wrapped as the service
  wraps it, and that flight's record as the client returns it.
\<close>

definition example_schedule_reply :: pyval where
  "example_schedule_reply =
     PDict [(''AirlineFlightSchedulesResult'',
             PDict [(''next_offset'', PInt (- 1)),
                    (''data'',
                     PList [PDict [(''ident'', PStr ''SWA1''),
                                   (''departuretime'', PInt 1577836800),
                                   (''arrivaltime'', PInt 1577844000)]])])]"

definition example_schedule_record :: pyval where
  "example_schedule_record =
     PDict [(''ident'', PStr ''SWA1''),
            (''departuretime'', PInt 1577836800),
            (''arrivaltime'', PInt 1577844000),
            (''departure_time'',
             PDatetime \<lparr>year = 2020, month = 1, day = 1, hour = 0, minute = 0, second = 0,
                         microsecond = 0, utcoffset = None\<rparr>),
            (''arrival_time'',
             PDatetime \<lparr>year = 2020, month = 1, day = 1, hour = 2, minute = 0, second = 0,
                         microsecond = 0, utcoffset = None\<rparr>)]"

section \<open>Properties of the request and of the reply's unwrapping\<close>

lemma example_platform_respond: "respond (example_platform reply off) history req = Inr reply"
  by (simp add: example_platform_def)

lemma example_platform_local_utcoffset: "local_utcoffset (example_platform reply off) t = off"
  by (simp add: example_platform_def)

lemma request_state:
  "snd (request p meth data s) =
     s\<lparr>sent := sent s @ [\<lparr>post_url = os_path_join BASE_URL meth, post_data = data,
                            post_auth = auth (self s), post_headers = headers (self s)\<rparr>]\<rparr>"
  by (simp add: request_def Let_def split: sum.splits)

lemma request_value:
  "fst (request p meth data s) =
     (case respond p (sent s) \<lparr>post_url = os_path_join BASE_URL meth, post_data = data,
                            post_auth = auth (self s), post_headers = headers (self s)\<rparr> of
        Inl e \<Rightarrow> Inl e
      | Inr result \<Rightarrow> unwrap_result meth result)"
  by (simp add: request_def Let_def split: sum.splits)

lemma os_path_join_BASE_URL:
  "meth = [] \<or> hd meth \<noteq> CHR ''/'' \<Longrightarrow> os_path_join BASE_URL meth = BASE_URL @ meth"
  by (auto simp: os_path_join_def BASE_URL_def)

lemma has_key_iff: "k \<in> fst ` set kvs \<longleftrightarrow> map_of kvs k \<noteq> None"
  by (simp add: map_of_eq_None_iff)




text \<open>
  With the key \<open>"MResult"\<close> present, what comes back depends on the kind of the inner
  value: an object is unwrapped under \<open>"data"\<close>; a list or a string is returned unless
  it contains \<open>"data"\<close> (as an element, as a substring), in which case subscripting it
  raises TypeError; a number, a boolean or null raises TypeError at the membership test.
\<close>

lemma unwrap_result_inner:
  assumes "map_of r (M @ ''Result'') = Some v"
  shows "unwrap_result M (PDict r) =
           (case v of
              PDict inner \<Rightarrow> (case map_of inner ''data'' of Some x \<Rightarrow> Inr x | None \<Rightarrow> Inr v)
            | PList xs \<Rightarrow> if PStr ''data'' \<in> set xs then Inl TypeError else Inr v
            | PStr s \<Rightarrow> if sublist ''data'' s then Inl TypeError else Inr v
            | _ \<Rightarrow> Inl TypeError)"
  using assms
  by (cases v) (auto simp: unwrap_result_def has_key_iff split: option.splits)



text \<open>
  Claim C7. When the transport succeeds and the reply to \<^verbatim>\<open>airport_info\<close> decodes to
  a JSON object that has the key \<open>"error"\<close> and no key \<open>"AirportInfoResult"\<close>, the call
  returns that object unchanged: the domain error is a value, not a raised fault.
\<close>

theorem airport_info_error_object_returned:
  assumes "respond p (sent s)
             \<lparr>post_url = BASE_URL @ ''AirportInfo'', post_data = PDict [(''airportCode'', airport)],
              post_auth = auth (self s), post_headers = headers (self s)\<rparr> = Inr (PDict r)"
      and "''error'' \<in> fst ` set r"
      and "''AirportInfoResult'' \<notin> fst ` set r"
  shows "fst (airport_info p airport s) = Inr (PDict r)"
  using assms
  by (simp add: airport_info_def request_value os_path_join_BASE_URL unwrap_result_def)

theorem airport_info_error_object_returned_witness:
  "fst (airport_info (example_platform (PDict [(''error'', PStr ''NO_DATA unknown airport'')]) 0)
          (PStr ''KasdfBNA'') example_state)
     = Inr (PDict [(''error'', PStr ''NO_DATA unknown airport'')])"
proof -
  let ?r = "[(''error'', PStr ''NO_DATA unknown airport'')]"
  have h: "respond (example_platform (PDict ?r) 0) (sent example_state)
             \<lparr>post_url = BASE_URL @ ''AirportInfo'',
              post_data = PDict [(''airportCode'', PStr ''KasdfBNA'')],
              post_auth = auth (self example_state),
              post_headers = headers (self example_state)\<rparr> = Inr (PDict ?r)"
    by (simp add: example_platform_def)
  have k1: "''error'' \<in> fst ` set ?r" by simp
  have k2: "''AirportInfoResult'' \<notin> fst ` set ?r" by simp
  from airport_info_error_object_returned [OF h k1 k2] show ?thesis .
qed

section \<open>The endpoints of the implemented operations\<close>

text \<open>
  The client is built with the credentials given and the form content type, and each
  implemented operation other than \<^verbatim>\<open>taf\<close> posts once, to the base URL joined with
  its own vendor method, with the client's credentials and headers
  (\<^verbatim>\<open>airline_flight_schedules\<close>: see \<open>airline_flight_schedules_sent\<close>).
\<close>

lemma Client_init_fields:
  "auth (Client_init user api_key) = \<lparr>username = user, password = api_key\<rparr>"
  "headers (Client_init user api_key) = [(''Content-Type'', ''application/x-www-form-urlencoded'')]"
  by (simp_all add: Client_init_def)

lemma request_posts_once:
  "meth = [] \<or> hd meth \<noteq> CHR ''/'' \<Longrightarrow>
   sent (snd (request p meth data s)) =
     sent s @ [\<lparr>post_url = BASE_URL @ meth, post_data = data, post_auth = auth (self s),
                 post_headers = headers (self s)\<rparr>]"
  by (simp add: request_state os_path_join_BASE_URL)

lemma implemented_operations_post:
  fixes s :: state
  defines "posted u d \<equiv> sent s @ [\<lparr>post_url = BASE_URL @ u, post_data = d,
                                       post_auth = auth (self s), post_headers = headers (self s)\<rparr>]"
  shows "sent (snd (aircraft_type p a s)) = posted ''AircraftType'' (PDict [(''type'', a)])"
    and "sent (snd (airline_flight_info p a s))
           = posted ''AirlineFlightInfo'' (PDict [(''faFlightID'', a)])"
    and "sent (snd (airline_info p a s)) = posted ''AirlineInfo'' (PDict [(''airlineCode'', a)])"
    and "sent (snd (airline_insight p a b c s))
           = posted ''AirlineInsight''
               (PDict [(''origin'', a), (''destination'', b),
                       (''reportType'', case c of None \<Rightarrow> PInt 2 | Some t \<Rightarrow> t)])"
    and "sent (snd (airport_info p a s)) = posted ''AirportInfo'' (PDict [(''airportCode'', a)])"
    and "sent (snd (all_airlines p s)) = posted ''AllAirlines'' PNone"
    and "sent (snd (all_airports p s)) = posted ''AllAirports'' PNone"
    and "sent (snd (block_indent_check p a s))
           = posted ''BlockIdentCheck'' (PDict [(''ident'', a)])"
    and "sent (snd (count_airport_operations p a s))
           = posted ''CountAirportOperations'' (PDict [(''airport'', a)])"
    and "sent (snd (count_all_enroute_airline_operations p s))
           = posted ''CountAllEnrouteAirlineOperations'' PNone"
    and "sent (snd (metar p a s)) = posted ''Metar'' (PDict [(''airport'', a)])"
    and "sent (snd (metar_ex p a s)) = posted ''MetarEx'' (PDict [(''airport'', a)])"
    and "sent (snd (ntaf p a s)) = posted ''NTaf'' (PDict [(''airport'', a)])"
    and "sent (snd (tail_owner p a s)) = posted ''TailOwner'' (PDict [(''ident'', a)])"
    and "sent (snd (zipcode_info p a s)) = posted ''ZipcodeInfo'' (PDict [(''zipcode'', a)])"
  unfolding posted_def
  by (simp_all add: request_posts_once aircraft_type_def airline_flight_info_def airline_info_def
      airline_insight_def airport_info_def all_airlines_def all_airports_def
      block_indent_check_def count_airport_operations_def
      count_all_enroute_airline_operations_def metar_def metar_ex_def ntaf_def tail_owner_def
      zipcode_info_def arg_default_def PERCENTAGE_SCHEDULED_ACTUALLY_FLOWN_def
      split: option.splits)

lemma get_flight_id_posts:
  "to_unix_timestamp p departure_datetime = Inr t \<Longrightarrow>
   sent (snd (get_flight_id p ident departure_datetime s)) =
     sent s @ [\<lparr>post_url = BASE_URL @ ''GetFlightID'',
                 post_data = PDict [(''ident'', ident), (''departureTime'', t)],
                 post_auth = auth (self s), post_headers = headers (self s)\<rparr>]"
  by (simp add: get_flight_id_def request_posts_once)

section \<open>The weather forecasts\<close>

text \<open>
  Claim C10. For every airport code, \<^verbatim>\<open>taf\<close> and \<^verbatim>\<open>ntaf\<close> are the same
  operation: each posts the body \<open>{"airport": a}\<close> to the endpoint \<open>NTaf\<close>, once, and
  returns the same result from the same state.
\<close>

theorem taf_equals_ntaf:
  "taf p airport s = ntaf p airport s
   \<and> sent (snd (taf p airport s)) =
       sent s @ [\<lparr>post_url = BASE_URL @ ''NTaf'', post_data = PDict [(''airport'', airport)],
                   post_auth = auth (self s), post_headers = headers (self s)\<rparr>]
   \<and> sent (snd (ntaf p airport s)) =
       sent s @ [\<lparr>post_url = BASE_URL @ ''NTaf'', post_data = PDict [(''airport'', airport)],
                   post_auth = auth (self s), post_headers = headers (self s)\<rparr>]"
  by (simp add: taf_def ntaf_def request_state os_path_join_BASE_URL)

text \<open>
  Claim C6 says that each implemented operation posts to the base URL joined with its own
  vendor method, \<^verbatim>\<open>taf\<close> to \<open>.../Taf\<close>. On the code, \<^verbatim>\<open>taf("KBNA")\<close> posts to
  \<open>.../NTaf\<close>.
\<close>

theorem taf_posts_to_NTaf:
  "map post_url (sent (snd (taf p (PStr ''KBNA'') example_state)))
     = [''http://flightxml.flightaware.com/json/FlightXML2/NTaf'']
   \<and> map post_url (sent (snd (taf p (PStr ''KBNA'') example_state)))
     \<noteq> [''http://flightxml.flightaware.com/json/FlightXML2/Taf'']"
  by (simp add: taf_def request_state os_path_join_def example_state_def BASE_URL_def)

section \<open>The operations that are declared only\<close>

text \<open>
  Claim C5. Every invocation of an unimplemented operation (\<^verbatim>\<open>enroute\<close>,
  \<^verbatim>\<open>scheduled\<close>, the searches, the maps, \<^verbatim>\<open>arrived\<close>, \<^verbatim>\<open>departed\<close>, the
  flight information, the track history, the alert management and the others) raises
  NotImplementedError, whatever its arguments and the state, and posts nothing: the state
  it leaves is the state it found.
\<close>

theorem unimplemented_operations_raise:
  "decode_flight_route s = (Inl NotImplementedError, s)
 \<and> decode_route s = (Inl NotImplementedError, s)
 \<and> arrived airport how_many filter_arg offset s = (Inl NotImplementedError, s)
 \<and> departed airport how_many filter_arg offset s = (Inl NotImplementedError, s)
 \<and> enroute s = (Inl NotImplementedError, s)
 \<and> fleet_arrived s = (Inl NotImplementedError, s)
 \<and> fleet_scheduled s = (Inl NotImplementedError, s)
 \<and> flight_info ident how_many s = (Inl NotImplementedError, s)
 \<and> flight_info_ex s = (Inl NotImplementedError, s)
 \<and> get_historical_track s = (Inl NotImplementedError, s)
 \<and> get_last_track s = (Inl NotImplementedError, s)
 \<and> inbound_flight_info s = (Inl NotImplementedError, s)
 \<and> in_flight_info s = (Inl NotImplementedError, s)
 \<and> lat_lng_to_distance s = (Inl NotImplementedError, s)
 \<and> lat_lng_to_heading s = (Inl NotImplementedError, s)
 \<and> map_flight s = (Inl NotImplementedError, s)
 \<and> map_flight_ex s = (Inl NotImplementedError, s)
 \<and> routes_between_airports s = (Inl NotImplementedError, s)
 \<and> routes_between_airports_ex s = (Inl NotImplementedError, s)
 \<and> scheduled s = (Inl NotImplementedError, s)
 \<and> search s = (Inl NotImplementedError, s)
 \<and> search_birdseye_in_flight s = (Inl NotImplementedError, s)
 \<and> search_birdseye_positions s = (Inl NotImplementedError, s)
 \<and> search_count s = (Inl NotImplementedError, s)
 \<and> set_maximum_result_sizes s = (Inl NotImplementedError, s)
 \<and> get_alerts s = (Inl NotImplementedError, s)
 \<and> delete_alert s = (Inl NotImplementedError, s)
 \<and> set_alert s = (Inl NotImplementedError, s)
 \<and> register_alert_endpoint s = (Inl NotImplementedError, s)"
  unfolding decode_flight_route_def decode_route_def arrived_def departed_def enroute_def
    fleet_arrived_def fleet_scheduled_def flight_info_def flight_info_ex_def
    get_historical_track_def get_last_track_def inbound_flight_info_def in_flight_info_def
    lat_lng_to_distance_def lat_lng_to_heading_def map_flight_def map_flight_ex_def
    routes_between_airports_def routes_between_airports_ex_def scheduled_def search_def
    search_birdseye_in_flight_def search_birdseye_positions_def search_count_def
    set_maximum_result_sizes_def get_alerts_def delete_alert_def set_alert_def
    register_alert_endpoint_def
  by simp

section \<open>The calendar: a day number gives its date back\<close>

text \<open>
  \<open>ord2ymd\<close> inverts \<open>ymd2ord\<close> on every date of the calendar. The year before the
  date is written \<open>400 a + 100 b + 4 c + e\<close>; the day number then splits into the
  400-year, 100-year, 4-year and 1-year cycles that \<open>ord2ymd\<close> divides out, and the
  month is found from the day of the year.
\<close>

lemma div_mod_bounds:
  fixes x k :: int
  assumes "0 < k" "0 \<le> x" "x < k * n"
  shows "0 \<le> x div k" "x div k \<le> n - 1" "0 \<le> x mod k" "x mod k < k"
proof -
  show "0 \<le> x div k" using assms by (simp add: pos_imp_zdiv_nonneg_iff)
  have "x = k * (x div k) + x mod k" by simp
  moreover have "0 \<le> x mod k" using assms by simp
  ultimately have "k * (x div k) < k * n" using assms by linarith
  then have "x div k < n" using assms by (simp add: mult_less_cancel_left_pos)
  then show "x div k \<le> n - 1" by simp
  show "0 \<le> x mod k" "x mod k < k" using assms by simp_all
qed

lemma year_digits:
  fixes p :: int
  obtains a b c e where "p = 400 * a + 100 * b + 4 * c + e"
    and "0 \<le> b" and "b \<le> 3" and "0 \<le> c" and "c \<le> 24" and "0 \<le> e" and "e \<le> 3"
proof
  let ?x = "p mod 400" let ?y = "p mod 400 mod 100"
  have x: "0 \<le> ?x" "?x < 100 * 4" by simp_all
  have y: "0 \<le> ?y" "?y < 4 * 25" by simp_all
  have "p = 400 * (p div 400) + ?x" by simp
  moreover have "?x = 100 * (?x div 100) + ?y" by simp
  moreover have "?y = 4 * (?y div 4) + ?y mod 4" by simp
  ultimately show "p = 400 * (p div 400) + 100 * (?x div 100) + 4 * (?y div 4) + ?y mod 4"
    by linarith
  show "0 \<le> ?x div 100" "?x div 100 \<le> 3"
    using div_mod_bounds(1,2) [of 100 ?x 4] x by simp_all
  show "0 \<le> ?y div 4" "?y div 4 \<le> 24"
    using div_mod_bounds(1,2) [of 4 ?y 25] y by simp_all
  show "0 \<le> ?y mod 4" "?y mod 4 \<le> 3" by simp_all
qed


lemma days_before_year_digits:
  assumes "0 \<le> b" "b \<le> 3" "0 \<le> c" "c \<le> 24" "0 \<le> e" "e \<le> 3"
  shows "days_before_year (400 * a + 100 * b + 4 * c + e + 1)
         = 146097 * a + 36524 * b + 1461 * c + 365 * e"
proof -
  let ?p = "400 * a + 100 * b + 4 * c + e"
  have d4: "?p div 4 = 100 * a + 25 * b + c"
    by (rule int_div_pos_eq [where r = e]) (use assms in auto)
  have d100: "?p div 100 = 4 * a + b"
    by (rule int_div_pos_eq [where r = "4 * c + e"]) (use assms in auto)
  have d400: "?p div 400 = a"
    by (rule int_div_pos_eq [where r = "100 * b + 4 * c + e"]) (use assms in auto)
  show ?thesis
    by (simp add: days_before_year_def Let_def d4 d100 d400)
qed

lemma mod_zero_top:
  fixes y r m k :: int
  assumes "y = m * k + r" "1 \<le> r" "r \<le> m"
  shows "y mod m = 0 \<longleftrightarrow> r = m"
proof (cases "r = m")
  case True
  with assms(1) show ?thesis by simp
next
  case False
  with assms have "r mod m = r" by simp
  with assms False show ?thesis by simp
qed

lemma is_leap_digits:
  assumes "0 \<le> b" "b \<le> 3" "0 \<le> c" "c \<le> 24" "0 \<le> e" "e \<le> 3"
  shows "is_leap (400 * a + 100 * b + 4 * c + e + 1) \<longleftrightarrow> e = 3 \<and> (c \<noteq> 24 \<or> b = 3)"
proof -
  let ?y = "400 * a + 100 * b + 4 * c + e + 1"
  have m4: "?y mod 4 = 0 \<longleftrightarrow> e + 1 = 4"
    by (rule mod_zero_top [where k = "100 * a + 25 * b + c"]) (use assms in auto)
  have m100: "?y mod 100 = 0 \<longleftrightarrow> 4 * c + e + 1 = 100"
    by (rule mod_zero_top [where k = "4 * a + b"]) (use assms in auto)
  have m400: "?y mod 400 = 0 \<longleftrightarrow> 100 * b + 4 * c + e + 1 = 400"
    by (rule mod_zero_top [where k = a]) (use assms in auto)
  show ?thesis
    unfolding is_leap_def m4 m100 m400 using assms by auto
qed

lemma div32_iff:
  fixes x q :: int
  shows "x div 32 = q \<longleftrightarrow> 32 * q \<le> x \<and> x < 32 * q + 32"
proof
  assume "x div 32 = q"
  moreover have "x = 32 * (x div 32) + x mod 32" by simp
  moreover have "0 \<le> x mod 32" "x mod 32 < 32" by simp_all
  ultimately show "32 * q \<le> x \<and> x < 32 * q + 32" by linarith
next
  assume a: "32 * q \<le> x \<and> x < 32 * q + 32"
  show "x div 32 = q"
    by (rule int_div_pos_eq [where r = "x - 32 * q"]) (use a in auto)
qed

lemma month_cases:
  fixes m :: int
  assumes "1 \<le> m" "m \<le> 12"
  obtains "m = 1" | "m = 2" | "m = 3" | "m = 4" | "m = 5" | "m = 6" | "m = 7" | "m = 8"
    | "m = 9" | "m = 10" | "m = 11" | "m = 12"
proof -
  from assms have "m = 1 \<or> m = 2 \<or> m = 3 \<or> m = 4 \<or> m = 5 \<or> m = 6 \<or> m = 7 \<or> m = 8
    \<or> m = 9 \<or> m = 10 \<or> m = 11 \<or> m = 12" by arith
  with that show thesis by blast
qed

lemma month_guess:
  fixes m d :: int
  assumes "1 \<le> m" "m \<le> 12" "1 \<le> d"
    and "d \<le> DAYS_IN_MONTH m + (if m = 2 \<and> L then 1 else 0)"
  shows "(DAYS_BEFORE_MONTH m + (if m > 2 \<and> L then 1 else 0) + d - 1 + 50) div 32 = m
       \<or> (DAYS_BEFORE_MONTH m + (if m > 2 \<and> L then 1 else 0) + d - 1 + 50) div 32 = m + 1
          \<and> m < 12"
  using assms(1,2)
proof (cases rule: month_cases)
  case 1 with assms(3,4) show ?thesis by (cases L) (auto simp: div32_iff)
next
  case 2 with assms(3,4) show ?thesis by (cases L) (auto simp: div32_iff)
next
  case 3 with assms(3,4) show ?thesis by (cases L) (auto simp: div32_iff)
next
  case 4 with assms(3,4) show ?thesis by (cases L) (auto simp: div32_iff)
next
  case 5 with assms(3,4) show ?thesis by (cases L) (auto simp: div32_iff)
next
  case 6 with assms(3,4) show ?thesis by (cases L) (auto simp: div32_iff)
next
  case 7 with assms(3,4) show ?thesis by (cases L) (auto simp: div32_iff)
next
  case 8 with assms(3,4) show ?thesis by (cases L) (auto simp: div32_iff)
next
  case 9 with assms(3,4) show ?thesis by (cases L) (auto simp: div32_iff)
next
  case 10 with assms(3,4) show ?thesis by (cases L) (auto simp: div32_iff)
next
  case 11 with assms(3,4) show ?thesis by (cases L) (auto simp: div32_iff)
next
  case 12 with assms(3,4) show ?thesis by (cases L) (auto simp: div32_iff)
qed


lemma month_day_from_doy:
  fixes m d :: int
  assumes "1 \<le> m" "m \<le> 12" "1 \<le> d"
    and "d \<le> DAYS_IN_MONTH m + (if m = 2 \<and> L then 1 else 0)"
  shows "(let k = DAYS_BEFORE_MONTH m + (if m > 2 \<and> L then 1 else 0) + d - 1;
              mm = (k + 50) div 32;
              preceding = DAYS_BEFORE_MONTH mm + (if mm > 2 \<and> L then 1 else 0)
          in if preceding > k
             then (mm - 1,
                   k - (preceding
                         - (DAYS_IN_MONTH (mm - 1) + (if mm - 1 = 2 \<and> L then 1 else 0))) + 1)
             else (mm, k - preceding + 1)) = (m, d)"
proof -
  let ?g = "(DAYS_BEFORE_MONTH m + (if m > 2 \<and> L then 1 else 0) + d - 1 + 50) div 32"
  from month_guess [OF assms] consider (lo) "?g = m" | (hi) "?g = m + 1" "m < 12"
    by blast
  then show ?thesis
  proof cases
    case lo
    with assms(3) show ?thesis
      unfolding Let_def by (simp del: DAYS_BEFORE_MONTH.simps DAYS_IN_MONTH.simps)
  next
    case hi
    from assms(1) hi(2) have m: "1 \<le> m" "m \<le> 11" by simp_all
    have tbl: "DAYS_BEFORE_MONTH (m + 1) = DAYS_BEFORE_MONTH m + DAYS_IN_MONTH m"
      using m(1) \<open>m \<le> 12\<close> by (cases rule: month_cases) (use hi(2) in simp_all)
    show ?thesis
      unfolding Let_def hi(1) using assms(3,4) m tbl
      by (auto simp del: DAYS_BEFORE_MONTH.simps DAYS_IN_MONTH.simps)
  qed
qed

lemma ord2ymd_within_year:
  fixes a b c e k :: int
  assumes "0 \<le> b" "b \<le> 3" "0 \<le> c" "c \<le> 24" "0 \<le> e" "e \<le> 3" "0 \<le> k" "k \<le> 364"
  shows "ord2ymd (146097 * a + 36524 * b + 1461 * c + 365 * e + k + 1) =
           (let leapyear = (e = 3 \<and> (c \<noteq> 24 \<or> b = 3));
                m = (k + 50) div 32;
                preceding = DAYS_BEFORE_MONTH m + (if m > 2 \<and> leapyear then 1 else 0)
            in if preceding > k
               then (400 * a + 100 * b + 4 * c + e + 1, m - 1,
                     k - (preceding
                           - (DAYS_IN_MONTH (m - 1) + (if m - 1 = 2 \<and> leapyear then 1 else 0))) + 1)
               else (400 * a + 100 * b + 4 * c + e + 1, m, k - preceding + 1))"
proof -
  define r4 where "r4 = 365 * e + k"
  define r100 where "r100 = 1461 * c + r4"
  define r400 where "r400 = 36524 * b + r100"
  define n where "n = 146097 * a + r400"
  have r4: "0 \<le> r4" "r4 \<le> 1459" using assms by (simp_all add: r4_def)
  have r100: "0 \<le> r100" "r100 \<le> 36523" using assms r4 by (simp_all add: r100_def)
  have r400: "0 \<le> r400" "r400 \<le> 146095" using assms r100 by (simp_all add: r400_def)
  have d1: "r4 div 365 = e"
    by (rule int_div_pos_eq [where r = k]) (use assms in \<open>simp_all add: r4_def\<close>)
  have m1: "r4 mod 365 = k"
    by (rule int_mod_pos_eq [where q = e]) (use assms in \<open>simp_all add: r4_def\<close>)
  have d4: "r100 div 1461 = c"
    by (rule int_div_pos_eq [where r = r4]) (use r4 in \<open>simp_all add: r100_def\<close>)
  have m4: "r100 mod 1461 = r4"
    by (rule int_mod_pos_eq [where q = c]) (use r4 in \<open>simp_all add: r100_def\<close>)
  have d100: "r400 div 36524 = b"
    by (rule int_div_pos_eq [where r = r100]) (use r100 in \<open>simp_all add: r400_def\<close>)
  have m100: "r400 mod 36524 = r100"
    by (rule int_mod_pos_eq [where q = b]) (use r100 in \<open>simp_all add: r400_def\<close>)
  have d400: "n div 146097 = a"
    by (rule int_div_pos_eq [where r = r400]) (use r400 in \<open>simp_all add: n_def\<close>)
  have m400: "n mod 146097 = r400"
    by (rule int_mod_pos_eq [where q = a]) (use r400 in \<open>simp_all add: n_def\<close>)
  have ord: "146097 * a + 36524 * b + 1461 * c + 365 * e + k + 1 = n + 1"
    by (simp add: n_def r400_def r100_def r4_def)
  have ne: "e \<noteq> 4" "b \<noteq> 4" using assms by simp_all
  show ?thesis
    unfolding ord ord2ymd_def
    by (simp add: Let_def d1 m1 d4 m4 d100 m100 d400 m400 ne algebra_simps
        del: DAYS_BEFORE_MONTH.simps DAYS_IN_MONTH.simps)
qed


lemma ord2ymd_end_of_leap_year:
  fixes a b c :: int
  assumes "0 \<le> b" "b \<le> 3" "0 \<le> c" "c \<le> 24" "c \<noteq> 24 \<or> b = 3"
  shows "ord2ymd (146097 * a + 36524 * b + 1461 * c + 365 * 3 + 365 + 1) =
           (400 * a + 100 * b + 4 * c + 3 + 1, 12, 31)"
proof (cases "c = 24")
  case True
  with assms have b: "b = 3" by simp
  define n where "n = 146097 * a + 146096"
  have d400: "n div 146097 = a"
    by (rule int_div_pos_eq [where r = 146096]) (simp_all add: n_def)
  have m400: "n mod 146097 = 146096"
    by (rule int_mod_pos_eq [where q = a]) (simp_all add: n_def)
  have ord: "146097 * a + 36524 * b + 1461 * c + 365 * 3 + 365 + 1 = n + 1"
    by (simp add: n_def b True)
  show ?thesis
    unfolding ord ord2ymd_def by (simp add: Let_def d400 m400 b True)
next
  case False
  with assms have c: "c \<le> 23" by simp
  define r100 where "r100 = 1461 * c + 1460"
  define r400 where "r400 = 36524 * b + r100"
  define n where "n = 146097 * a + r400"
  have r100: "0 \<le> r100" "r100 \<le> 35063" using assms c by (simp_all add: r100_def)
  have r400: "0 \<le> r400" "r400 \<le> 144635" using assms r100 by (simp_all add: r400_def)
  have d4: "r100 div 1461 = c"
    by (rule int_div_pos_eq [where r = 1460]) (simp_all add: r100_def)
  have m4: "r100 mod 1461 = 1460"
    by (rule int_mod_pos_eq [where q = c]) (simp_all add: r100_def)
  have d100: "r400 div 36524 = b"
    by (rule int_div_pos_eq [where r = r100]) (use r100 in \<open>simp_all add: r400_def\<close>)
  have m100: "r400 mod 36524 = r100"
    by (rule int_mod_pos_eq [where q = b]) (use r100 in \<open>simp_all add: r400_def\<close>)
  have d400: "n div 146097 = a"
    by (rule int_div_pos_eq [where r = r400]) (use r400 in \<open>simp_all add: n_def\<close>)
  have m400: "n mod 146097 = r400"
    by (rule int_mod_pos_eq [where q = a]) (use r400 in \<open>simp_all add: n_def\<close>)
  have ord: "146097 * a + 36524 * b + 1461 * c + 365 * 3 + 365 + 1 = n + 1"
    by (simp add: n_def r400_def r100_def)
  show ?thesis
    unfolding ord ord2ymd_def by (simp add: Let_def d4 m4 d100 m100 d400 m400)
qed

lemma day_of_year_range:
  fixes m d :: int
  assumes "1 \<le> m" "m \<le> 12" "1 \<le> d"
    and "d \<le> DAYS_IN_MONTH m + (if m = 2 \<and> L then 1 else 0)"
  shows "0 \<le> DAYS_BEFORE_MONTH m + (if m > 2 \<and> L then 1 else 0) + d - 1"
    and "DAYS_BEFORE_MONTH m + (if m > 2 \<and> L then 1 else 0) + d - 1
           \<le> 364 + (if L then 1 else 0)"
    and "DAYS_BEFORE_MONTH m + (if m > 2 \<and> L then 1 else 0) + d - 1 = 365
           \<Longrightarrow> m = 12 \<and> d = 31"
  using assms(1,2)
  by (cases rule: month_cases; use assms(3,4) in \<open>simp split: if_splits\<close>)+

lemma if_pair: "(if P then (Y, A) else (Y, C)) = (Y, if P then A else C)"
  by simp

lemma ord2ymd_ymd2ord:
  fixes y m d :: int
  assumes "1 \<le> m" "m \<le> 12" "1 \<le> d" "d \<le> days_in_month y m"
  shows "ord2ymd (ymd2ord y m d) = (y, m, d)"
proof -
  obtain a b c e where p: "y - 1 = 400 * a + 100 * b + 4 * c + e"
    and bnd: "0 \<le> b" "b \<le> 3" "0 \<le> c" "c \<le> 24" "0 \<le> e" "e \<le> 3"
    by (rule year_digits)
  from p have y: "y = 400 * a + 100 * b + 4 * c + e + 1" by simp
  define L where "L = (e = 3 \<and> (c \<noteq> 24 \<or> b = 3))"
  define k where "k = DAYS_BEFORE_MONTH m + (if m > 2 \<and> L then 1 else 0) + d - 1"
  have leap: "is_leap y = L"
    unfolding y L_def by (rule is_leap_digits [OF bnd])
  have dby: "days_before_year y = 146097 * a + 36524 * b + 1461 * c + 365 * e"
    unfolding y by (rule days_before_year_digits [OF bnd])
  from assms(4) have d: "d \<le> DAYS_IN_MONTH m + (if m = 2 \<and> L then 1 else 0)"
    by (auto simp: days_in_month_def leap split: if_splits)
  have ord: "ymd2ord y m d = 146097 * a + 36524 * b + 1461 * c + 365 * e + k + 1"
    by (simp add: ymd2ord_def dby days_before_month_def leap k_def
        del: DAYS_BEFORE_MONTH.simps)
  note rng = day_of_year_range [OF assms(1,2,3) d, folded k_def]
  show ?thesis
  proof (cases "k = 365")
    case True
    with rng(2) have L: "L" by (simp split: if_splits)
    from rng(3) [OF True] have md: "m = 12" "d = 31" by simp_all
    from L have e: "e = 3" and cb: "c \<noteq> 24 \<or> b = 3" by (simp_all add: L_def)
    have "ymd2ord y m d = 146097 * a + 36524 * b + 1461 * c + 365 * 3 + 365 + 1"
      using ord True e by simp
    then have "ord2ymd (ymd2ord y m d) = (400 * a + 100 * b + 4 * c + 3 + 1, 12, 31)"
      using ord2ymd_end_of_leap_year [OF bnd(1,2,3,4) cb, of a] by (simp only:)
    also have "\<dots> = (y, m, d)" using y e md by simp
    finally show ?thesis .
  next
    case False
    with rng(2) have k: "k \<le> 364" by (simp split: if_splits)
    let ?mm = "(k + 50) div 32"
    let ?pre = "DAYS_BEFORE_MONTH ?mm + (if ?mm > 2 \<and> L then 1 else 0)"
    let ?undo = "k - (?pre - (DAYS_IN_MONTH (?mm - 1) + (if ?mm - 1 = 2 \<and> L then 1 else 0))) + 1"
    from month_day_from_doy [OF assms(1,2,3) d]
    have md: "(if ?pre > k then (?mm - 1, ?undo) else (?mm, k - ?pre + 1)) = (m, d)"
      unfolding Let_def k_def .
    have "ord2ymd (ymd2ord y m d)
            = ord2ymd (146097 * a + 36524 * b + 1461 * c + 365 * e + k + 1)"
      by (simp only: ord)
    also have "\<dots> = (if ?pre > k then (y, ?mm - 1, ?undo) else (y, ?mm, k - ?pre + 1))"
      by (simp only: ord2ymd_within_year [OF bnd rng(1) k] Let_def L_def [symmetric]
          y [symmetric])
    also have "\<dots> = (y, if ?pre > k then (?mm - 1, ?undo) else (?mm, k - ?pre + 1))"
      by (rule if_pair)
    also have "\<dots> = (y, m, d)"
      by (simp only: md)
    finally show ?thesis .
  qed
qed

lemma days_before_year_bounds:
  assumes "1 \<le> y" "y \<le> 9998"
  shows "0 \<le> days_before_year y" "days_before_year y \<le> 3651404"
proof -
  let ?p = "y - 1"
  have p: "0 \<le> ?p" "?p \<le> 9997" using assms by simp_all
  have a: "?p div 100 \<le> ?p div 4" using p by (intro zdiv_mono2) simp_all
  have b: "?p div 400 \<le> ?p div 100" using p by (intro zdiv_mono2) simp_all
  have c: "0 \<le> ?p div 400" using p by (simp add: pos_imp_zdiv_nonneg_iff)
  have "?p div 4 \<le> 9997 div 4" using p by (intro zdiv_mono1) simp_all
  then have d: "?p div 4 \<le> 2499" by simp
  show "0 \<le> days_before_year y" "days_before_year y \<le> 3651404"
    using p a b c d by (simp_all add: days_before_year_def Let_def)
qed

lemma toordinal_range:
  assumes "valid_datetime d"
  shows "1 \<le> toordinal d" "toordinal d \<le> 3652059"
proof -
  from assms have y: "1 \<le> year d" "year d \<le> 9999"
    and m: "1 \<le> month d" "month d \<le> 12"
    and dd: "1 \<le> day d" "day d \<le> days_in_month (year d) (month d)"
    by (simp_all add: valid_datetime_def)
  define L where "L = is_leap (year d)"
  from dd(2) have dim: "day d \<le> DAYS_IN_MONTH (month d) + (if month d = 2 \<and> L then 1 else 0)"
    by (auto simp: days_in_month_def L_def split: if_splits)
  note rng = day_of_year_range(1,2) [OF m dd(1) dim]
  have doy: "days_before_month (year d) (month d) + day d
               = DAYS_BEFORE_MONTH (month d) + (if month d > 2 \<and> L then 1 else 0) + day d - 1 + 1"
    by (simp add: days_before_month_def L_def del: DAYS_BEFORE_MONTH.simps)
  show "1 \<le> toordinal d" "toordinal d \<le> 3652059"
  proof -
    consider "year d \<le> 9998" | "year d = 9999" using y by linarith
    then have "1 \<le> toordinal d \<and> toordinal d \<le> 3652059"
    proof cases
      case 1
      from days_before_year_bounds [OF y(1) 1] rng doy show ?thesis
        by (simp add: toordinal_def ymd2ord_def split: if_splits
            del: DAYS_BEFORE_MONTH.simps)
    next
      case 2
      then have "\<not> L" by (simp add: L_def is_leap_def)
      with rng doy 2 show ?thesis
        by (simp add: toordinal_def ymd2ord_def days_before_year_def
            del: DAYS_BEFORE_MONTH.simps)
    qed
    then show "1 \<le> toordinal d" "toordinal d \<le> 3652059" by simp_all
  qed
qed

lemma time_of_day_fields:
  fixes h mi s :: int
  assumes "0 \<le> h" "h < 24" "0 \<le> mi" "mi < 60" "0 \<le> s" "s < 60"
  shows "(h * 3600 + mi * 60 + s) div 3600 = h"
    and "(h * 3600 + mi * 60 + s) mod 3600 div 60 = mi"
    and "(h * 3600 + mi * 60 + s) mod 60 = s"
proof -
  show "(h * 3600 + mi * 60 + s) div 3600 = h"
    by (rule int_div_pos_eq [where r = "mi * 60 + s"]) (use assms in simp_all)
  have "(h * 3600 + mi * 60 + s) mod 3600 = mi * 60 + s"
    by (rule int_mod_pos_eq [where q = h]) (use assms in simp_all)
  moreover have "(mi * 60 + s) div 60 = mi"
    by (rule int_div_pos_eq [where r = s]) (use assms in simp_all)
  ultimately show "(h * 3600 + mi * 60 + s) mod 3600 div 60 = mi" by simp
  show "(h * 3600 + mi * 60 + s) mod 60 = s"
    by (rule int_mod_pos_eq [where q = "h * 60 + mi"]) (use assms in simp_all)
qed


lemma toordinal_EPOCH: "toordinal EPOCH = 719163"
  by (simp add: EPOCH_def toordinal_def ymd2ord_def days_before_year_def days_before_month_def
      is_leap_def)

lemma localtime_seconds_since_epoch:
  assumes "valid_datetime d" and "utcoffset d = None" and "microsecond d = 0"
    and "local_utcoffset p (seconds_since_epoch d) = 0"
  shows "localtime p (seconds_since_epoch d) = Inr d"
proof -
  let ?s = "hour d * 3600 + minute d * 60 + second d"
  let ?t = "seconds_since_epoch d"
  from assms(1) have hms: "0 \<le> hour d" "hour d < 24" "0 \<le> minute d" "minute d < 60"
    "0 \<le> second d" "second d < 60"
    and md: "1 \<le> month d" "month d \<le> 12" "1 \<le> day d"
    "day d \<le> days_in_month (year d) (month d)"
    by (simp_all add: valid_datetime_def)
  have s: "0 \<le> ?s" "?s < 86400" using hms by simp_all
  have t: "?t = 86400 * (toordinal d - 719163) + ?s"
    by (simp add: seconds_since_epoch_def toordinal_EPOCH)
  have dv: "?t div 86400 = toordinal d - 719163"
    by (rule int_div_pos_eq [where r = ?s]) (use t s in simp_all)
  have md': "?t mod 86400 = ?s"
    by (rule int_mod_pos_eq [where q = "toordinal d - 719163"]) (use t s in simp_all)
  have ymd: "ord2ymd (toordinal d) = (year d, month d, day d)"
    unfolding toordinal_def by (rule ord2ymd_ymd2ord [OF md])
  note rng = toordinal_range [OF assms(1)]
  note tod = time_of_day_fields [OF hms]
  show ?thesis
    using rng assms(2,3)
    by (simp add: localtime_def assms(4) dv md' ymd tod Let_def)
qed

section \<open>The conversion to epoch seconds\<close>

lemma example_platform_true_divide:
  "true_divide (example_platform reply off) a b = real_of_int a / real_of_int b"
  by (simp add: example_platform_def)


lemma int_of_float_of_int: "int_of_float (real_of_int n) = n"
  by (simp add: int_of_float_def)

lemma int_of_float_between:
  assumes "real_of_int n \<le> x" and "x \<le> real_of_int n + 1"
  shows "n \<le> int_of_float x" and "int_of_float x \<le> n + 1"
proof -
  have fc: "\<lfloor>x\<rfloor> \<le> \<lceil>x\<rceil>" by (rule floor_le_ceiling)
  from assms(1) have lo: "n \<le> \<lfloor>x\<rfloor>" by (simp add: le_floor_iff)
  from assms(2) have "x \<le> real_of_int (n + 1)" by simp
  then have hi: "\<lceil>x\<rceil> \<le> n + 1" by (simp only: ceiling_le_iff)
  from lo fc have "n \<le> \<lceil>x\<rceil>" by linarith
  with lo show "n \<le> int_of_float x" unfolding int_of_float_def by simp
  from hi fc have "\<lfloor>x\<rfloor> \<le> n + 1" by linarith
  with hi show "int_of_float x \<le> n + 1" unfolding int_of_float_def by simp
qed

lemma to_unix_timestamp_naive:
  "utcoffset d = None \<Longrightarrow>
   to_unix_timestamp p (PDatetime d) =
     Inr (PInt (int_of_float (total_seconds p
       (seconds_since_epoch d * 1000000 + microsecond d))))"
proof -
  have "((toordinal d - toordinal EPOCH) * 86400
          + (second d + minute d * 60 + hour d * 3600 - 0)) * 1000000 + (microsecond d - 0)
        = seconds_since_epoch d * 1000000 + microsecond d"
    by (simp add: seconds_since_epoch_def algebra_simps)
  moreover assume "utcoffset d = None"
  ultimately show ?thesis
    by (simp add: to_unix_timestamp_def datetime_sub_def Let_def EPOCH_def)
qed

lemma seconds_since_epoch_range:
  assumes "valid_datetime d"
  shows "- (2 ^ 53) \<le> seconds_since_epoch d" and "seconds_since_epoch d + 1 \<le> 2 ^ 53"
proof -
  from assms have hms: "0 \<le> hour d" "hour d < 24" "0 \<le> minute d" "minute d < 60"
    "0 \<le> second d" "second d < 60"
    by (simp_all add: valid_datetime_def)
  note rng = toordinal_range [OF assms]
  show "- (2 ^ 53) \<le> seconds_since_epoch d" and "seconds_since_epoch d + 1 \<le> 2 ^ 53"
    using rng hms by (simp_all add: seconds_since_epoch_def toordinal_EPOCH)
qed

lemma to_unix_timestamp_naive_seconds:
  assumes "utcoffset d = None" and "valid_datetime d" and "ieee_true_divide p"
  shows "\<exists>r. to_unix_timestamp p (PDatetime d) = Inr (PInt r)
             \<and> seconds_since_epoch d \<le> r \<and> r \<le> seconds_since_epoch d + 1
             \<and> (microsecond d = 0 \<longrightarrow> r = seconds_since_epoch d)"
proof -
  let ?n = "seconds_since_epoch d"
  let ?x = "total_seconds p (?n * 1000000 + microsecond d)"
  from assms(2) have us: "0 \<le> microsecond d" "microsecond d < 1000000"
    by (simp_all add: valid_datetime_def)
  note rng = seconds_since_epoch_range [OF assms(2)]
  from assms(3) have exact: "\<And>q. \<bar>q\<bar> \<le> 2 ^ 53 \<Longrightarrow> true_divide p (q * 1000000) 1000000 = real_of_int q"
    and mono: "\<And>a b. a \<le> b \<Longrightarrow> true_divide p a 1000000 \<le> true_divide p b 1000000"
    by (simp_all add: ieee_true_divide_def)
  have lo: "real_of_int ?n \<le> ?x"
  proof -
    have "true_divide p (?n * 1000000) 1000000 \<le> ?x"
      unfolding total_seconds_def using us by (intro mono) simp
    moreover have "true_divide p (?n * 1000000) 1000000 = real_of_int ?n"
      using rng by (intro exact) simp
    ultimately show ?thesis by simp
  qed
  have hi: "?x \<le> real_of_int ?n + 1"
  proof -
    have "?x \<le> true_divide p ((?n + 1) * 1000000) 1000000"
      unfolding total_seconds_def using us by (intro mono) simp
    moreover have "true_divide p ((?n + 1) * 1000000) 1000000 = real_of_int (?n + 1)"
      using rng by (intro exact) simp
    ultimately show ?thesis by simp
  qed
  have zero: "microsecond d = 0 \<Longrightarrow> int_of_float ?x = ?n"
  proof -
    assume "microsecond d = 0"
    moreover have "true_divide p (?n * 1000000) 1000000 = real_of_int ?n"
      using rng by (intro exact) simp
    ultimately show ?thesis by (simp add: total_seconds_def int_of_float_of_int)
  qed
  from int_of_float_between [OF lo hi] zero to_unix_timestamp_naive [OF assms(1), of p]
  show ?thesis by simp
qed



lemma int_of_float_exact_quotient:
  "int_of_float (real_of_int td / 1000000)
     = (if 0 \<le> td then td div 1000000 else - ((- td) div 1000000))"
proof (cases "0 \<le> td")
  case True
  have "\<lfloor>real_of_int td / real_of_int 1000000\<rfloor> = td div 1000000"
    by (rule floor_divide_of_int_eq)
  then show ?thesis using True by (simp add: int_of_float_def)
next
  case False
  have "\<lfloor>real_of_int (- td) / real_of_int 1000000\<rfloor> = (- td) div 1000000"
    by (rule floor_divide_of_int_eq)
  then have "\<lceil>real_of_int td / 1000000\<rceil> = - ((- td) div 1000000)"
    by (simp add: ceiling_def)
  then show ?thesis using False by (simp add: int_of_float_def)
qed

lemma example_to_unix_timestamp:
  "utcoffset d = None \<Longrightarrow>
   to_unix_timestamp (example_platform reply off) (PDatetime d) =
     Inr (PInt (let us = seconds_since_epoch d * 1000000 + microsecond d
                in if 0 \<le> us then us div 1000000 else - ((- us) div 1000000)))"
  by (simp add: to_unix_timestamp_naive total_seconds_def example_platform_true_divide
      int_of_float_exact_quotient Let_def del: of_int_add of_int_mult)

lemma example_start:
  "to_unix_timestamp (example_platform reply off)
     (PDatetime \<lparr>year = 2020, month = 1, day = 1, hour = 0, minute = 0,
                 second = 0, microsecond = 0, utcoffset = None\<rparr>) = Inr (PInt 1577836800)"
  by (simp add: example_to_unix_timestamp seconds_since_epoch_def toordinal_EPOCH)
     (simp add: toordinal_def ymd2ord_def days_before_year_def days_before_month_def is_leap_def)

lemma example_end:
  "to_unix_timestamp (example_platform reply off)
     (PDatetime \<lparr>year = 2020, month = 1, day = 2, hour = 0, minute = 0,
                 second = 0, microsecond = 0, utcoffset = None\<rparr>) = Inr (PInt 1577923200)"
  by (simp add: example_to_unix_timestamp seconds_since_epoch_def toordinal_EPOCH)
     (simp add: toordinal_def ymd2ord_def days_before_year_def days_before_month_def is_leap_def)




section \<open>Flight schedules: the request\<close>

lemma airline_flight_schedules_sent:
  assumes "to_unix_timestamp p start_date = Inr sd" and "to_unix_timestamp p end_date = Inr ed"
  shows "sent (snd (airline_flight_schedules p start_date end_date origin destination airline
                      flight_number how_many offset s))
         = sent s @
           [\<lparr>post_url = BASE_URL @ ''AirlineFlightSchedules'',
             post_data = PDict
               [(''startDate'', sd), (''endDate'', ed),
                (''origin'', arg_default PNone origin),
                (''destination'', arg_default PNone destination),
                (''airline'', arg_default PNone airline),
                (''flightno'', arg_default PNone flight_number),
                (''howMany'', arg_default (PInt MAX_RECORD_LENGTH) how_many),
                (''offset'', arg_default (PInt 0) offset)],
             post_auth = auth (self s), post_headers = headers (self s)\<rparr>]"
proof -
  let ?data = "PDict
               [(''startDate'', sd), (''endDate'', ed),
                (''origin'', arg_default PNone origin),
                (''destination'', arg_default PNone destination),
                (''airline'', arg_default PNone airline),
                (''flightno'', arg_default PNone flight_number),
                (''howMany'', arg_default (PInt MAX_RECORD_LENGTH) how_many),
                (''offset'', arg_default (PInt 0) offset)]"
  obtain r s' where rs: "request p ''AirlineFlightSchedules'' ?data s = (r, s')"
    by (cases "request p ''AirlineFlightSchedules'' ?data s")
  have "s' = snd (request p ''AirlineFlightSchedules'' ?data s)" using rs by simp
  then have s': "sent s' = sent s @ [\<lparr>post_url = BASE_URL @ ''AirlineFlightSchedules'',
        post_data = ?data, post_auth = auth (self s), post_headers = headers (self s)\<rparr>]"
    by (simp add: request_state os_path_join_BASE_URL)
  have "snd (airline_flight_schedules p start_date end_date origin destination airline
                      flight_number how_many offset s) = s'"
    using assms rs by (simp add: airline_flight_schedules_def Let_def split: sum.splits)
  then show ?thesis using s' by simp
qed

lemma airline_flight_schedules_value:
  assumes "to_unix_timestamp p start_date = Inr sd" and "to_unix_timestamp p end_date = Inr ed"
  shows "fst (airline_flight_schedules p start_date end_date origin destination airline
                      flight_number how_many offset s)
         = (case fst (request p ''AirlineFlightSchedules'' (PDict
               [(''startDate'', sd), (''endDate'', ed),
                (''origin'', arg_default PNone origin),
                (''destination'', arg_default PNone destination),
                (''airline'', arg_default PNone airline),
                (''flightno'', arg_default PNone flight_number),
                (''howMany'', arg_default (PInt MAX_RECORD_LENGTH) how_many),
                (''offset'', arg_default (PInt 0) offset)]) s) of
              Inl e \<Rightarrow> Inl e
            | Inr results \<Rightarrow> decode_times p results)"
  using assms
  by (simp add: airline_flight_schedules_def Let_def split: sum.splits prod.splits)

section \<open>Flight schedules: the requested record count\<close>

text \<open>
  Claim C4 as it holds on the code. \<^verbatim>\<open>airline_flight_schedules\<close> neither rejects
  nor truncates \<open>how_many\<close>: whenever both dates convert, it posts exactly one request,
  to \<open>AirlineFlightSchedules\<close>, whose \<open>howMany\<close> field is the \<open>how_many\<close> given,
  whatever its value (15 when it is left out), and the outcome of the call is that of
  the reply's unwrapping and decoding.
\<close>

theorem airline_flight_schedules_passes_how_many:
  assumes "to_unix_timestamp p start_date = Inr sd" and "to_unix_timestamp p end_date = Inr ed"
  shows "\<exists>req. sent (snd (airline_flight_schedules p start_date end_date origin destination
                             airline flight_number how_many offset s)) = sent s @ [req]
           \<and> post_url req = BASE_URL @ ''AirlineFlightSchedules''
           \<and> py_getitem (post_data req) ''howMany''
               = Inr (case how_many of None \<Rightarrow> PInt 15 | Some n \<Rightarrow> n)
           \<and> fst (airline_flight_schedules p start_date end_date origin destination
                             airline flight_number how_many offset s)
               = (case respond p (sent s) req of
                    Inl e \<Rightarrow> Inl e
                  | Inr reply \<Rightarrow>
                      (case unwrap_result ''AirlineFlightSchedules'' reply of
                         Inl e \<Rightarrow> Inl e
                       | Inr results \<Rightarrow> decode_times p results))"
  using assms
  by (simp add: airline_flight_schedules_sent airline_flight_schedules_value request_value
      os_path_join_BASE_URL arg_default_def MAX_RECORD_LENGTH_def split: sum.splits option.splits)

theorem airline_flight_schedules_passes_how_many_witness:
  "\<exists>req. sent (snd (airline_flight_schedules (example_platform (PList []) 0)
          (PDatetime \<lparr>year = 2020, month = 1, day = 1, hour = 0, minute = 0,
                      second = 0, microsecond = 0, utcoffset = None\<rparr>)
          (PDatetime \<lparr>year = 2020, month = 1, day = 2, hour = 0, minute = 0,
                      second = 0, microsecond = 0, utcoffset = None\<rparr>)
          None None None None (Some (PInt 16)) None example_state)) = [req]
     \<and> py_getitem (post_data req) ''howMany'' = Inr (PInt 16)"
  using airline_flight_schedules_passes_how_many
      [OF example_start [of "PList []" 0] example_end [of "PList []" 0],
       of None None None None "Some (PInt 16)" None example_state]
  by (auto simp: example_state_def)

text \<open>
  Claim C4 as stated says a call with \<open>how_many > 15\<close> is rejected or its count cut to
  15 before the request is issued. With \<open>how_many = 16\<close> the call returns the (empty)
  list of the reply, and the one request it posted asks for 16 records.
\<close>

theorem airline_flight_schedules_how_many_16:
  "fst (airline_flight_schedules (example_platform (PList []) 0)
          (PDatetime \<lparr>year = 2020, month = 1, day = 1, hour = 0, minute = 0,
                      second = 0, microsecond = 0, utcoffset = None\<rparr>)
          (PDatetime \<lparr>year = 2020, month = 1, day = 2, hour = 0, minute = 0,
                      second = 0, microsecond = 0, utcoffset = None\<rparr>)
          None None None None (Some (PInt 16)) None example_state) = Inr (PList [])
   \<and> map (\<lambda>req. py_getitem (post_data req) ''howMany'')
        (sent (snd (airline_flight_schedules (example_platform (PList []) 0)
          (PDatetime \<lparr>year = 2020, month = 1, day = 1, hour = 0, minute = 0,
                      second = 0, microsecond = 0, utcoffset = None\<rparr>)
          (PDatetime \<lparr>year = 2020, month = 1, day = 2, hour = 0, minute = 0,
                      second = 0, microsecond = 0, utcoffset = None\<rparr>)
          None None None None (Some (PInt 16)) None example_state)))
     = [Inr (PInt 16)]"
  by (simp add: airline_flight_schedules_sent [OF example_start example_end]
      airline_flight_schedules_value [OF example_start example_end]
      request_value example_platform_respond example_state_def unwrap_result_def
      decode_times_def arg_default_def)

section \<open>Flight schedules: the decoded times\<close>

lemma from_unix_timestamp_datetime:
  "from_unix_timestamp p x = Inr y \<Longrightarrow> \<exists>d. y = PDatetime d"
  by (auto simp: from_unix_timestamp_def split: sum.splits)

lemma add_times_fields:
  assumes "add_times p item = Inr item'"
  shows "\<exists>kvs raw_dep raw_arr dep arr.
           item' = PDict kvs
         \<and> map_of kvs ''departuretime'' = Some raw_dep
         \<and> from_unix_timestamp p raw_dep = Inr (PDatetime dep)
         \<and> map_of kvs ''departure_time'' = Some (PDatetime dep)
         \<and> map_of kvs ''arrivaltime'' = Some raw_arr
         \<and> from_unix_timestamp p raw_arr = Inr (PDatetime arr)
         \<and> map_of kvs ''arrival_time'' = Some (PDatetime arr)"
proof -
  from assms obtain kvs0 where item: "item = PDict kvs0"
    by (cases item) (simp_all add: add_times_def)
  from assms item obtain raw_dep where rd: "map_of kvs0 ''departuretime'' = Some raw_dep"
    by (auto simp: add_times_def split: option.splits)
  from assms item rd obtain y where y: "from_unix_timestamp p raw_dep = Inr y"
    by (auto simp: add_times_def split: sum.splits)
  then obtain dep where dep: "y = PDatetime dep"
    using from_unix_timestamp_datetime by blast
  let ?kvs1 = "AList.update ''departure_time'' (PDatetime dep) kvs0"
  from assms item rd y dep obtain raw_arr where ra: "map_of ?kvs1 ''arrivaltime'' = Some raw_arr"
    by (auto simp: add_times_def update_conv' split: option.splits)
  from assms item rd y dep ra obtain z where z: "from_unix_timestamp p raw_arr = Inr z"
    by (auto simp: add_times_def update_conv' split: sum.splits)
  then obtain arr where arr: "z = PDatetime arr"
    using from_unix_timestamp_datetime by blast
  let ?kvs2 = "AList.update ''arrival_time'' (PDatetime arr) ?kvs1"
  from assms item rd y dep ra z arr have "item' = PDict ?kvs2"
    by (simp add: add_times_def)
  moreover have "map_of ?kvs2 ''departuretime'' = Some raw_dep"
    using rd by (simp add: update_conv')
  moreover have "map_of ?kvs2 ''departure_time'' = Some (PDatetime dep)"
    by (simp add: update_conv')
  moreover have "map_of ?kvs2 ''arrivaltime'' = Some raw_arr"
    using ra by (simp add: update_conv')
  moreover have "map_of ?kvs2 ''arrival_time'' = Some (PDatetime arr)"
    by (simp add: update_conv')
  ultimately show ?thesis using y dep z arr by blast
qed

lemma for_items_each:
  "for_items p items = Inr items' \<Longrightarrow>
   length items' = length items \<and> (\<forall>i < length items. add_times p (items ! i) = Inr (items' ! i))"
proof (induction items arbitrary: items')
  case Nil
  then show ?case by simp
next
  case (Cons item rest)
  from Cons.prems obtain item' rest' where
    a: "add_times p item = Inr item'" and r: "for_items p rest = Inr rest'"
    and eq: "items' = item' # rest'"
    by (auto split: sum.splits)
  from Cons.IH [OF r] a eq show ?case
    by (auto simp: nth_Cons split: nat.splits)
qed

lemma add_times_not_str: "add_times p (PStr k) = Inl TypeError"
  by (simp add: add_times_def)

lemma for_items_strs:
  "for_items p (map (\<lambda>x. PStr (f x)) xs) = Inr ys \<Longrightarrow> xs = []"
  by (cases xs) (simp_all add: add_times_not_str)

lemma decode_times_items:
  assumes "decode_times p reply = Inr results" and "py_iter results = Inr items"
  shows "\<forall>item \<in> set items. \<exists>item0. add_times p item0 = Inr item"
proof (cases reply)
  case (PList xs)
  with assms obtain items' where f: "for_items p xs = Inr items'" and r: "results = PList items'"
    by (auto simp: decode_times_def split: sum.splits)
  with assms have "items = items'" by simp
  with for_items_each [OF f] show ?thesis
    by (metis in_set_conv_nth)
next
  case (PDict kvs)
  with assms have "kvs = []"
    by (auto simp: decode_times_def split: sum.splits dest: for_items_strs)
  with assms PDict show ?thesis by (auto simp: decode_times_def)
next
  case (PStr s)
  with assms have "s = []"
    by (auto simp: decode_times_def split: sum.splits dest: for_items_strs)
  with assms PStr show ?thesis by (auto simp: decode_times_def)
qed (use assms in \<open>simp_all add: decode_times_def\<close>)

lemma localtime_in_range:
  "1 \<le> (t + local_utcoffset p t) div 86400 + 719163 \<Longrightarrow>
   (t + local_utcoffset p t) div 86400 + 719163 \<le> 3652059 \<Longrightarrow>
   \<exists>d. from_unix_timestamp p (PInt t) = Inr (PDatetime d)"
  by (simp add: from_unix_timestamp_def fromtimestamp_def localtime_def Let_def
      split: prod.splits)

lemma add_times_total:
  assumes "map_of kvs ''departuretime'' = Some (PInt t1)"
    and "map_of kvs ''arrivaltime'' = Some (PInt t2)"
    and "1 \<le> (t1 + local_utcoffset p t1) div 86400 + 719163"
    and "(t1 + local_utcoffset p t1) div 86400 + 719163 \<le> 3652059"
    and "1 \<le> (t2 + local_utcoffset p t2) div 86400 + 719163"
    and "(t2 + local_utcoffset p t2) div 86400 + 719163 \<le> 3652059"
  shows "\<exists>item'. add_times p (PDict kvs) = Inr item'"
proof -
  from localtime_in_range [OF assms(3,4)] obtain d1 where
    d1: "from_unix_timestamp p (PInt t1) = Inr (PDatetime d1)" by blast
  from localtime_in_range [OF assms(5,6)] obtain d2 where
    d2: "from_unix_timestamp p (PInt t2) = Inr (PDatetime d2)" by blast
  from assms(1,2) d1 d2 show ?thesis
    by (simp add: add_times_def update_conv')
qed

lemma example_departure:
  "from_unix_timestamp (example_platform reply 0) (PInt 1577836800) =
     Inr (PDatetime \<lparr>year = 2020, month = 1, day = 1, hour = 0, minute = 0, second = 0,
                     microsecond = 0, utcoffset = None\<rparr>)"
  by (simp add: from_unix_timestamp_def fromtimestamp_def localtime_def example_platform_def
      ord2ymd_def Let_def)

lemma example_arrival:
  "from_unix_timestamp (example_platform reply 0) (PInt 1577844000) =
     Inr (PDatetime \<lparr>year = 2020, month = 1, day = 1, hour = 2, minute = 0, second = 0,
                     microsecond = 0, utcoffset = None\<rparr>)"
  by (simp add: from_unix_timestamp_def fromtimestamp_def localtime_def example_platform_def
      ord2ymd_def Let_def)

lemma example_schedule_call:
  "fst (airline_flight_schedules (example_platform example_schedule_reply 0)
          (PDatetime \<lparr>year = 2020, month = 1, day = 1, hour = 0, minute = 0,
                      second = 0, microsecond = 0, utcoffset = None\<rparr>)
          (PDatetime \<lparr>year = 2020, month = 1, day = 2, hour = 0, minute = 0,
                      second = 0, microsecond = 0, utcoffset = None\<rparr>)
          None None None None None None example_state)
   = Inr (PList [example_schedule_record])"
proof -
  have u: "unwrap_result ''AirlineFlightSchedules'' example_schedule_reply
        = Inr (PList [PDict [(''ident'', PStr ''SWA1''),
                                   (''departuretime'', PInt 1577836800),
                                   (''arrivaltime'', PInt 1577844000)]])"
    by (simp add: unwrap_result_def example_schedule_reply_def)
  have a: "add_times (example_platform example_schedule_reply 0)
             (PDict [(''ident'', PStr ''SWA1''),
                                   (''departuretime'', PInt 1577836800),
                                   (''arrivaltime'', PInt 1577844000)])
           = Inr example_schedule_record"
    by (simp add: add_times_def example_departure example_arrival example_schedule_record_def)
  show ?thesis
    by (simp add: airline_flight_schedules_value [OF example_start example_end] request_value
        example_platform_respond decode_times_def u a)
qed

text \<open>
  Claim C3. Every record of the sequence that \<^verbatim>\<open>airline_flight_schedules\<close> returns
  is a dictionary that has the derived fields \<open>departure_time\<close> and \<open>arrival_time\<close>,
  each the datetime that \<^verbatim>\<open>from_unix_timestamp\<close> gives for the record's raw field
  \<open>departuretime\<close> or \<open>arrivaltime\<close>, which the record still has. (A reply with a
  record that lacks a raw field, or whose raw field is no timestamp in range, makes the
  call raise, so it returns no sequence.)
\<close>

theorem airline_flight_schedules_derived_fields:
  assumes "airline_flight_schedules p start_date end_date origin destination airline
             flight_number how_many offset s = (Inr results, s')"
      and "py_iter results = Inr records"
  shows "\<forall>r \<in> set records. \<exists>kvs raw_dep raw_arr dep arr.
           r = PDict kvs
         \<and> map_of kvs ''departuretime'' = Some raw_dep
         \<and> from_unix_timestamp p raw_dep = Inr (PDatetime dep)
         \<and> map_of kvs ''departure_time'' = Some (PDatetime dep)
         \<and> map_of kvs ''arrivaltime'' = Some raw_arr
         \<and> from_unix_timestamp p raw_arr = Inr (PDatetime arr)
         \<and> map_of kvs ''arrival_time'' = Some (PDatetime arr)"
proof -
  from assms(1) obtain reply where "decode_times p reply = Inr results"
    by (auto simp: airline_flight_schedules_def Let_def split: sum.splits prod.splits)
  from decode_times_items [OF this assms(2)]
  have "\<forall>r \<in> set records. \<exists>item0. add_times p item0 = Inr r" .
  then show ?thesis using add_times_fields by blast
qed

theorem airline_flight_schedules_derived_fields_witness:
  "fst (airline_flight_schedules (example_platform example_schedule_reply 0)
          (PDatetime \<lparr>year = 2020, month = 1, day = 1, hour = 0, minute = 0,
                      second = 0, microsecond = 0, utcoffset = None\<rparr>)
          (PDatetime \<lparr>year = 2020, month = 1, day = 2, hour = 0, minute = 0,
                      second = 0, microsecond = 0, utcoffset = None\<rparr>)
          None None None None None None example_state)
     = Inr (PList [example_schedule_record])
   \<and> (\<exists>kvs dep arr.
         example_schedule_record = PDict kvs
       \<and> map_of kvs ''departure_time'' = Some (PDatetime dep)
       \<and> map_of kvs ''arrival_time'' = Some (PDatetime arr))"
proof -
  let ?call = "airline_flight_schedules (example_platform example_schedule_reply 0)
          (PDatetime \<lparr>year = 2020, month = 1, day = 1, hour = 0, minute = 0,
                      second = 0, microsecond = 0, utcoffset = None\<rparr>)
          (PDatetime \<lparr>year = 2020, month = 1, day = 2, hour = 0, minute = 0,
                      second = 0, microsecond = 0, utcoffset = None\<rparr>)
          None None None None None None example_state"
  have ev: "?call = (Inr (PList [example_schedule_record]), snd ?call)"
    using example_schedule_call by (simp add: prod_eq_iff)
  have it: "py_iter (PList [example_schedule_record]) = Inr [example_schedule_record]"
    by simp
  from airline_flight_schedules_derived_fields [OF ev it]
  have "\<exists>kvs dep arr.
         example_schedule_record = PDict kvs
       \<and> map_of kvs ''departure_time'' = Some (PDatetime dep)
       \<and> map_of kvs ''arrival_time'' = Some (PDatetime arr)"
    by auto
  with example_schedule_call show ?thesis by simp
qed

section \<open>The round trip through epoch seconds\<close>

text \<open>
  Where the local zone of the process is UTC at that instant, the way back does give the
  datetime back: for every naive datetime \<open>d\<close> without microseconds,
  \<^verbatim>\<open>to_unix_timestamp\<close> returns \<open>seconds_since_epoch d\<close> and
  \<^verbatim>\<open>from_unix_timestamp\<close> of that is \<open>d\<close>.
\<close>

lemma round_trip_in_utc:
  assumes "valid_datetime d" and "utcoffset d = None" and "microsecond d = 0"
    and "ieee_true_divide p" and "local_utcoffset p (seconds_since_epoch d) = 0"
  shows "to_unix_timestamp p (PDatetime d) = Inr (PInt (seconds_since_epoch d))"
    and "from_unix_timestamp p (PInt (seconds_since_epoch d)) = Inr (PDatetime d)"
proof -
  from to_unix_timestamp_naive_seconds [OF assms(2,1,4)] assms(3)
  show "to_unix_timestamp p (PDatetime d) = Inr (PInt (seconds_since_epoch d))"
    by auto
  from localtime_seconds_since_epoch [OF assms(1,2,3,5)]
  show "from_unix_timestamp p (PInt (seconds_since_epoch d)) = Inr (PDatetime d)"
    by (simp add: from_unix_timestamp_def fromtimestamp_def)
qed

text \<open>
  Claim C2 says that \<^verbatim>\<open>from_unix_timestamp(to_unix_timestamp(d))\<close> is \<open>d\<close> for
  every datetime without microseconds. On the code the way back reads the local zone of
  the process: one hour east of UTC, midnight of 2020-01-01 goes to 1577836800 and comes
  back as one o'clock.
\<close>

theorem round_trip_differs_off_utc:
  "valid_datetime \<lparr>year = 2020, month = 1, day = 1, hour = 0, minute = 0, second = 0,
                    microsecond = 0, utcoffset = None\<rparr>
   \<and> to_unix_timestamp (example_platform PNone 3600)
         (PDatetime \<lparr>year = 2020, month = 1, day = 1, hour = 0, minute = 0, second = 0,
                     microsecond = 0, utcoffset = None\<rparr>) = Inr (PInt 1577836800)
   \<and> from_unix_timestamp (example_platform PNone 3600) (PInt 1577836800) =
       Inr (PDatetime \<lparr>year = 2020, month = 1, day = 1, hour = 1, minute = 0, second = 0,
                       microsecond = 0, utcoffset = None\<rparr>)
   \<and> from_unix_timestamp (example_platform PNone 3600) (PInt 1577836800) \<noteq>
       Inr (PDatetime \<lparr>year = 2020, month = 1, day = 1, hour = 0, minute = 0, second = 0,
                       microsecond = 0, utcoffset = None\<rparr>)"
  by (simp add: example_start valid_datetime_def days_in_month_def from_unix_timestamp_def
      fromtimestamp_def localtime_def example_platform_local_utcoffset ord2ymd_def Let_def)

section \<open>The client across calls\<close>

lemma client_kept_refl: "client_kept s s"
  by (simp add: client_kept_def)

lemma client_kept_trans:
  assumes "client_kept s s'" and "client_kept s' s''"
  shows "client_kept s s''"
proof -
  from assms(1) obtain a where a: "sent s' = sent s @ a" and sa: "self s' = self s"
    and la: "list_all (\<lambda>r. post_auth r = auth (self s) \<and> post_headers r = headers (self s)) a"
    unfolding client_kept_def by (metis append_take_drop_id)
  from assms(2) obtain b where b: "sent s'' = sent s' @ b" and sb: "self s'' = self s'"
    and lb: "list_all (\<lambda>r. post_auth r = auth (self s') \<and> post_headers r = headers (self s')) b"
    unfolding client_kept_def by (metis append_take_drop_id)
  from a b sa sb la lb show ?thesis
    by (simp add: client_kept_def)
qed

lemma client_kept_request: "client_kept s (snd (request p meth data s))"
  by (simp add: request_state client_kept_def)

lemma airline_flight_schedules_state:
  "snd (airline_flight_schedules p start_date end_date origin destination airline
          flight_number how_many offset s)
   = (case to_unix_timestamp p start_date of
        Inl e \<Rightarrow> s
      | Inr sd \<Rightarrow>
          (case to_unix_timestamp p end_date of
             Inl e \<Rightarrow> s
           | Inr ed \<Rightarrow>
               snd (request p ''AirlineFlightSchedules'' (PDict
                 [(''startDate'', sd), (''endDate'', ed),
                  (''origin'', arg_default PNone origin),
                  (''destination'', arg_default PNone destination),
                  (''airline'', arg_default PNone airline),
                  (''flightno'', arg_default PNone flight_number),
                  (''howMany'', arg_default (PInt MAX_RECORD_LENGTH) how_many),
                  (''offset'', arg_default (PInt 0) offset)]) s)))"
  by (simp add: airline_flight_schedules_def Let_def split: sum.splits prod.splits)

lemma client_kept_airline_flight_schedules:
  "client_kept s (snd (airline_flight_schedules p a b c d e f g h s))"
  by (simp add: airline_flight_schedules_state client_kept_refl client_kept_request
      split: sum.splits)

lemma client_kept_get_flight_id: "client_kept s (snd (get_flight_id p a b s))"
  by (simp add: get_flight_id_def client_kept_refl client_kept_request split: sum.splits)

lemma client_kept_invoke: "client_kept s (snd (invoke p c s))"
  by (cases c)
    (simp_all add: client_kept_request client_kept_refl client_kept_airline_flight_schedules
      client_kept_get_flight_id
      aircraft_type_def airline_flight_info_def airline_info_def airline_insight_def
      airport_info_def all_airlines_def all_airports_def block_indent_check_def
      count_airport_operations_def count_all_enroute_airline_operations_def metar_def
      metar_ex_def ntaf_def taf_def tail_owner_def zipcode_info_def
      decode_flight_route_def decode_route_def arrived_def departed_def enroute_def
      fleet_arrived_def fleet_scheduled_def flight_info_def flight_info_ex_def
      get_historical_track_def get_last_track_def inbound_flight_info_def in_flight_info_def
      lat_lng_to_distance_def lat_lng_to_heading_def map_flight_def map_flight_ex_def
      routes_between_airports_def routes_between_airports_ex_def scheduled_def search_def
      search_birdseye_in_flight_def search_birdseye_positions_def search_count_def
      set_maximum_result_sizes_def get_alerts_def delete_alert_def set_alert_def
      register_alert_endpoint_def)

lemma client_kept_run: "client_kept s (run p cs s)"
proof (induction cs arbitrary: s)
  case Nil
  show ?case by (simp add: client_kept_refl)
next
  case (Cons c cs)
  from client_kept_trans [OF client_kept_invoke Cons.IH] show ?case by simp
qed

text \<open>
  Claim C8. No call changes the client: after any call, and after any sequence of calls,
  the client object (its credentials \<open>auth\<close> and its \<open>headers\<close>) is the one set at
  construction, and every request posted on the way carries those same credentials and
  headers, so two calls on the same client see identical ones.
\<close>

theorem calls_keep_client:
  "self (snd (invoke p c s)) = self s
   \<and> self (run p cs s) = self s
   \<and> (\<forall>r \<in> set (drop (length (sent s)) (sent (run p cs s))).
         post_auth r = auth (self s) \<and> post_headers r = headers (self s))"
  using client_kept_invoke [of s p c] client_kept_run [of s p cs]
  by (simp add: client_kept_def list_all_iff)

theorem calls_keep_client_witness:
  "length (sent (run (example_platform (PStr ''x'') 0)
                   [Metar (PStr ''KBNA''), Enroute, Airport_info (PStr ''KBNA'')]
                   example_state)) = 2
   \<and> self (run (example_platform (PStr ''x'') 0)
              [Metar (PStr ''KBNA''), Enroute, Airport_info (PStr ''KBNA'')] example_state)
       = Client_init ''user'' ''key''
   \<and> list_all (\<lambda>r. post_auth r = \<lparr>username = ''user'', password = ''key''\<rparr>
                  \<and> post_headers r = [(''Content-Type'', ''application/x-www-form-urlencoded'')])
        (sent (run (example_platform (PStr ''x'') 0)
                 [Metar (PStr ''KBNA''), Enroute, Airport_info (PStr ''KBNA'')]
                 example_state))"
proof -
  let ?cs = "[Metar (PStr ''KBNA''), Enroute, Airport_info (PStr ''KBNA'')]"
  let ?p = "example_platform (PStr ''x'') 0"
  have n: "length (sent (run ?p ?cs example_state)) = 2"
    by (simp add: metar_def enroute_def airport_info_def request_state example_state_def)
  from calls_keep_client [of ?p "Enroute" example_state ?cs] n show ?thesis
    by (simp add: example_state_def Client_init_def list_all_iff)
qed

end
